theory Spec2Isabelle
  imports Main "HOL-Library.Sublist" "HOL-Library.Char_ord" "HOL-Library.List_Lexorder"
begin

section \<open>Video ingestion: \<^verbatim>\<open>bin/ingest_archive_video.py\<close>\<close>

text \<open>
  The script scans a directory for \<^verbatim>\<open>*.mp4\<close> files, derives Anthology identifiers from the
  file names, and appends a \<^verbatim>\<open>video\<close> element to the matching \<^verbatim>\<open>paper\<close> element of the
  collection's XML document. Python strings are modelled as \<^typ>\<open>string\<close>, lists as lists,
  exceptions as the left summand of a sum type.
\<close>

datatype error =
    DeconstructError  \<comment> \<open>\<^verbatim>\<open>deconstruct_anthology_id\<close> raised\<close>
  | LookupMiss        \<comment> \<open>the element helper was handed the \<^verbatim>\<open>None\<close> of a failed \<^verbatim>\<open>find\<close>\<close>
  | ParseError        \<comment> \<open>\<^verbatim>\<open>et.parse\<close> could not read the document\<close>
  | ListdirError      \<comment> \<open>\<^verbatim>\<open>os.listdir(DATA_DIR)\<close> raised\<close>
  | IndexError        \<comment> \<open>list index out of range\<close>

subsection \<open>String and path primitives of the Python library\<close>

text \<open>\<^verbatim>\<open>s.split('.')\<close>: the segments between periods; never the empty list.\<close>

fun split_dot :: "string \<Rightarrow> string list" where
  "split_dot [] = [[]]"
| "split_dot (c # cs) =
     (if c = CHR ''.'' then [] # split_dot cs
      else (case split_dot cs of [] \<Rightarrow> [[c]] | s # ss \<Rightarrow> (c # s) # ss))"

text \<open>\<^verbatim>\<open>file[len(video_dir):]\<close>\<close>

definition strip_dir :: "string \<Rightarrow> string \<Rightarrow> string" where
  "strip_dir video_dir file = drop (length video_dir) file"

text \<open>
  \<^verbatim>\<open>os.path.split\<close> (posixpath): the head is everything up to the last separator, with its
  trailing separators removed unless it consists of separators only.
\<close>

definition rstrip_sep :: "string \<Rightarrow> string" where
  "rstrip_sep s = rev (dropWhile (\<lambda>c. c = CHR ''/'') (rev s))"

definition path_split :: "string \<Rightarrow> string \<times> string" where
  "path_split p =
     (let head = rev (dropWhile (\<lambda>c. c \<noteq> CHR ''/'') (rev p));
          tail = rev (takeWhile (\<lambda>c. c \<noteq> CHR ''/'') (rev p))
      in (if head \<noteq> [] \<and> (\<exists>c \<in> set head. c \<noteq> CHR ''/'') then rstrip_sep head else head, tail))"

text \<open>
  \<^verbatim>\<open>os.path.join(a, b)\<close> for a second component that is a directory entry (so never
  absolute): a separator is inserted unless \<open>a\<close> is empty or already ends with one.
\<close>

definition path_join :: "string \<Rightarrow> string \<Rightarrow> string" where
  "path_join a b = (if a = [] \<or> last a = CHR ''/'' then a @ b else a @ CHR ''/'' # b)"

text \<open>
  \<^verbatim>\<open>os.path.splitext\<close> (genericpath): split at the last period of the last path component,
  unless that component consists of leading periods only up to there.
\<close>

definition rfind :: "char \<Rightarrow> string \<Rightarrow> int" where
  "rfind c s =
     (if c \<in> set s then int (length s) - 1 - int (length (takeWhile (\<lambda>x. x \<noteq> c) (rev s)))
      else - 1)"

definition splitext :: "string \<Rightarrow> string \<times> string" where
  "splitext p =
     (let sepIndex = rfind (CHR ''/'') p;
          dotIndex = rfind (CHR ''.'') p
      in if dotIndex > sepIndex \<and>
            (\<exists>c \<in> set (take (nat (dotIndex - (sepIndex + 1))) (drop (nat (sepIndex + 1)) p)).
               c \<noteq> CHR ''.'')
         then (take (nat dotIndex) p, drop (nat dotIndex) p)
         else (p, []))"

subsection \<open>The file system as the script sees it\<close>

text \<open>
  \<open>listdir\<close> gives the entries of a directory in the order the operating system reports
  them (\<open>None\<close> when the path cannot be listed); \<open>glob_dirs\<close> gives the directories that a
  directory pattern with metacharacters expands to.
\<close>

record env =
  listdir :: "string \<Rightarrow> string list option"
  glob_dirs :: "string \<Rightarrow> string list"

text \<open>\<^verbatim>\<open>glob.has_magic\<close>: the pattern contains one of \<^verbatim>\<open>* ? [\<close>.\<close>

definition has_magic :: "string \<Rightarrow> bool" where
  "has_magic s \<longleftrightarrow> CHR ''*'' \<in> set s \<or> CHR ''?'' \<in> set s \<or> CHR ''['' \<in> set s"

text \<open>
  \<^verbatim>\<open>glob.glob(f"{video_dir}/*.mp4")\<close>: the pattern is split into directory part and
  \<^verbatim>\<open>*.mp4\<close>; a directory part without metacharacters is taken literally, otherwise it is
  expanded first. In each directory the entries that do not start with a period and end
  in \<^verbatim>\<open>.mp4\<close> are joined to the directory part. An unreadable directory yields nothing.
\<close>

definition mp4_entry :: "string \<Rightarrow> bool" where
  "mp4_entry n \<longleftrightarrow> n \<noteq> [] \<and> hd n \<noteq> CHR ''.'' \<and> suffix ''.mp4'' n"

definition glob_mp4 :: "env \<Rightarrow> string \<Rightarrow> string list" where
  "glob_mp4 e video_dir =
     (let dirname = fst (path_split (video_dir @ ''/*.mp4''));
          dirs = (if has_magic dirname then glob_dirs e dirname else [dirname])
      in concat (map (\<lambda>d. map (path_join d)
                            (filter mp4_entry (case listdir e d of None \<Rightarrow> [] | Some ns \<Rightarrow> ns)))
                     dirs))"

subsection \<open>Scanning: \<^verbatim>\<open>get_collection_ids\<close> and \<^verbatim>\<open>get_anth_ids\<close>\<close>

text \<open>
  \<^verbatim>\<open>deconstruct_anthology_id\<close> lives in \<^verbatim>\<open>anthology.utils\<close>; it is a parameter here:
  a function from an identifier to (collection, volume, paper), \<open>None\<close> when it raises.
\<close>

type_synonym deconstruct = "string \<Rightarrow> (string \<times> string \<times> string) option"

text \<open>The list comprehension of \<^verbatim>\<open>get_collection_ids\<close>; the first failure aborts it.\<close>

fun collection_codes :: "deconstruct \<Rightarrow> string \<Rightarrow> string list \<Rightarrow> error + string list" where
  "collection_codes dec video_dir [] = Inr []"
| "collection_codes dec video_dir (file # files) =
     (case dec (hd (split_dot (strip_dir video_dir file))) of
        None \<Rightarrow> Inl DeconstructError
      | Some (collection_id, volume_id, paper_id) \<Rightarrow>
          (case collection_codes dec video_dir files of
             Inl err \<Rightarrow> Inl err
           | Inr cs \<Rightarrow> Inr (collection_id # cs)))"

text \<open>
  \<^verbatim>\<open>list(set(...))\<close>: the distinct codes. Python fixes no order for them and the script only
  tests membership; the model keeps one occurrence of each.
\<close>

definition get_collection_ids :: "deconstruct \<Rightarrow> env \<Rightarrow> string \<Rightarrow> error + string list" where
  "get_collection_ids dec e video_dir =
     (case collection_codes dec video_dir (glob_mp4 e video_dir) of
        Inl err \<Rightarrow> Inl err
      | Inr cs \<Rightarrow> Inr (remdups cs))"

text \<open>The two comprehensions of \<^verbatim>\<open>get_anth_ids\<close> over the globbed paths.\<close>

definition single_ids :: "string \<Rightarrow> string list \<Rightarrow> string list" where
  "single_ids video_dir files =
     map (\<lambda>file. hd (split_dot (strip_dir video_dir file)))
         (filter (\<lambda>file. length (split_dot (strip_dir video_dir file)) = 2) files)"

definition multiple_ids :: "string \<Rightarrow> string list \<Rightarrow> string list list" where
  "multiple_ids video_dir files =
     map (\<lambda>file. butlast (split_dot (strip_dir video_dir file)))
         (filter (\<lambda>file. length (split_dot (strip_dir video_dir file)) > 2) files)"

text \<open>
  \<^verbatim>\<open>anth_ids_multiple.sort()\<close> orders lists of strings lexicographically, strings by
  character code: the order of \<^typ>\<open>string list\<close> here.
\<close>

definition get_anth_ids :: "env \<Rightarrow> string \<Rightarrow> string list \<times> string list list" where
  "get_anth_ids e video_dir =
     (single_ids video_dir (glob_mp4 e video_dir),
      sort (multiple_ids video_dir (glob_mp4 e video_dir)))"


subsection \<open>Documents\<close>

text \<open>
  An lxml element: tag, attributes in document order, text, tail and child elements.
  A node of the loaded tree is referred to by its position: \<open>(i, j)\<close> is child \<open>j\<close> of
  child \<open>i\<close> of the root, which is all that the script's path expression can reach.
\<close>

datatype xml =
  Element (tag: string) (attrib: "(string \<times> string) list")
          (el_text: "string option") (el_tail: "string option") (children: "xml list")

text \<open>The step \<^verbatim>\<open>t[@id="i"]\<close> of the path expression: tag \<open>t\<close> and attribute \<^verbatim>\<open>id\<close> equal to \<open>i\<close>.\<close>

definition is_node :: "string \<Rightarrow> string \<Rightarrow> xml \<Rightarrow> bool" where
  "is_node t i el \<longleftrightarrow> tag el = t \<and> map_of (attrib el) ''id'' = Some i"

fun first_index :: "('a \<Rightarrow> bool) \<Rightarrow> 'a list \<Rightarrow> nat option" where
  "first_index P [] = None"
| "first_index P (x # xs) = (if P x then Some 0 else map_option Suc (first_index P xs))"

text \<open>
  \<^verbatim>\<open>xml_parse.find('./volume[@id="V"]/paper[@id="P"]')\<close>: the first match in document
  order, \<open>None\<close> when there is none. The codes are compared as plain text (they are spliced
  between double quotes, so the model speaks for codes without a double quote).
\<close>

fun find_in_volumes :: "string \<Rightarrow> string \<Rightarrow> xml list \<Rightarrow> (nat \<times> nat) option" where
  "find_in_volumes volume_id paper_id [] = None"
| "find_in_volumes volume_id paper_id (el # els) =
     (case (if is_node ''volume'' volume_id el
            then first_index (is_node ''paper'' paper_id) (children el) else None) of
        Some j \<Rightarrow> Some (0, j)
      | None \<Rightarrow> map_option (\<lambda>(i, j). (Suc i, j)) (find_in_volumes volume_id paper_id els))"

definition find_paper :: "string \<Rightarrow> string \<Rightarrow> xml \<Rightarrow> (nat \<times> nat) option" where
  "find_paper volume_id paper_id root = find_in_volumes volume_id paper_id (children root)"

definition append_child :: "xml \<Rightarrow> xml \<Rightarrow> xml" where
  "append_child el parent =
     Element (tag parent) (attrib parent) (el_text parent) (el_tail parent) (children parent @ [el])"

definition update_child :: "nat \<Rightarrow> (xml \<Rightarrow> xml) \<Rightarrow> xml \<Rightarrow> xml" where
  "update_child i f el =
     Element (tag el) (attrib el) (el_text el) (el_tail el) ((children el)[i := f (children el ! i)])"

text \<open>
  Modelled from the spec: \<^verbatim>\<open>make_simple_element\<close> of \<^verbatim>\<open>anthology.utils\<close>, which is not
  part of the sources at hand. The spec calls it the helper that builds a simple tagged
  element and attaches it to a parent; the new node carries the given attributes and
  becomes the last child of the parent, and a parent that the path query did not find is a
  fatal lookup failure.
\<close>

definition make_simple_element ::
  "string \<Rightarrow> (string \<times> string) list \<Rightarrow> (nat \<times> nat) option \<Rightarrow> xml \<Rightarrow> error + xml" where
  "make_simple_element t a parent root =
     (case parent of
        None \<Rightarrow> Inl LookupMiss
      | Some (i, j) \<Rightarrow>
          Inr (update_child i (update_child j (append_child (Element t a None None []))) root))"

subsection \<open>Tag insertion: \<^verbatim>\<open>add_video_tag_single\<close> and \<^verbatim>\<open>add_video_tag_multiple\<close>\<close>

definition add_video_tag_single :: "deconstruct \<Rightarrow> string \<Rightarrow> xml \<Rightarrow> error + xml" where
  "add_video_tag_single dec anth_id xml_parse =
     (case dec anth_id of
        None \<Rightarrow> Inl DeconstructError
      | Some (collection_id, volume_id, paper_id) \<Rightarrow>
          (let paper = find_paper volume_id paper_id xml_parse;
               video_url = anth_id @ ''.mp4''
           in make_simple_element ''video'' [(''href'', video_url)] paper xml_parse))"

definition add_video_tag_multiple :: "deconstruct \<Rightarrow> string \<Rightarrow> string \<Rightarrow> xml \<Rightarrow> error + xml" where
  "add_video_tag_multiple dec anth_id vid_num xml_parse =
     (case dec anth_id of
        None \<Rightarrow> Inl DeconstructError
      | Some (collection_id, volume_id, paper_id) \<Rightarrow>
          (let paper = find_paper volume_id paper_id xml_parse;
               video_url = anth_id @ (''.'' @ vid_num) @ ''.mp4''
           in make_simple_element ''video'' [(''href'', video_url)] paper xml_parse))"

subsection \<open>Writing: \<^verbatim>\<open>update_xml\<close>\<close>

text \<open>
  The documents on disk are a map from path to the tree the file holds; \<open>written\<close> records
  the paths opened for writing, in order. \<^verbatim>\<open>indent\<close> of \<^verbatim>\<open>anthology.utils\<close> rewrites the
  tree in place before it is serialised; it is a parameter, as are the decomposition rule
  and the location \<^verbatim>\<open>DATA_DIR\<close>, which depends on where the script is installed.
\<close>

record world =
  store :: "string \<rightharpoonup> xml"
  written :: "string list"

record config =
  deconstruct_anthology_id :: deconstruct
  indent :: "xml \<Rightarrow> xml"
  DATA_DIR :: string

definition update_xml ::
  "(xml \<Rightarrow> xml) \<Rightarrow> string \<Rightarrow> string \<Rightarrow> string \<Rightarrow> xml \<Rightarrow> world \<Rightarrow> xml \<times> world" where
  "update_xml ind data_dir collection_id extention xml_tree w =
     (let path = path_join data_dir (collection_id @ extention);
          t = ind xml_tree
      in (t, w\<lparr>store := (store w)(path \<mapsto> t), written := written w @ [path]\<rparr>))"

subsection \<open>The run: \<^verbatim>\<open>main\<close>\<close>

text \<open>\<^verbatim>\<open>collection_id in anth_id\<close> is Python's substring test, \<^const>\<open>sublist\<close> here.\<close>

fun single_loop ::
  "config \<Rightarrow> string \<Rightarrow> string \<Rightarrow> string list \<Rightarrow> xml \<times> world \<Rightarrow> (error \<times> world) + (xml \<times> world)" where
  "single_loop cf collection_id extention [] (tree, w) = Inr (tree, w)"
| "single_loop cf collection_id extention (anth_id # ids) (tree, w) =
     (if sublist collection_id anth_id then
        (case add_video_tag_single (deconstruct_anthology_id cf) anth_id tree of
           Inl err \<Rightarrow> Inl (err, w)
         | Inr tree' \<Rightarrow>
             single_loop cf collection_id extention ids
               (update_xml (indent cf) (DATA_DIR cf) collection_id extention tree' w))
      else single_loop cf collection_id extention ids (tree, w))"

fun multi_loop ::
  "config \<Rightarrow> string \<Rightarrow> string \<Rightarrow> string list list \<Rightarrow> xml \<times> world \<Rightarrow> (error \<times> world) + (xml \<times> world)" where
  "multi_loop cf collection_id extention [] (tree, w) = Inr (tree, w)"
| "multi_loop cf collection_id extention (anth_id_vid_num # rest) (tree, w) =
     (case anth_id_vid_num of
        anth_id # vid_num # _ \<Rightarrow>
          (if sublist collection_id anth_id then
             (case add_video_tag_multiple (deconstruct_anthology_id cf) anth_id vid_num tree of
                Inl err \<Rightarrow> Inl (err, w)
              | Inr tree' \<Rightarrow>
                  multi_loop cf collection_id extention rest
                    (update_xml (indent cf) (DATA_DIR cf) collection_id extention tree' w))
           else multi_loop cf collection_id extention rest (tree, w))
      | _ \<Rightarrow> Inl (IndexError, w))"

text \<open>The body of \<^verbatim>\<open>for file in xml_files\<close>; \<^verbatim>\<open>et.parse\<close> fails on a path that holds no document.\<close>

definition process_file ::
  "config \<Rightarrow> string list \<Rightarrow> string list list \<Rightarrow> string \<Rightarrow> world \<Rightarrow> (error \<times> world) + world" where
  "process_file cf anth_ids_single anth_ids_multiple file w =
     (case splitext file of (collection_id, extention) \<Rightarrow>
        (case store w (path_join (DATA_DIR cf) file) of
           None \<Rightarrow> Inl (ParseError, w)
         | Some tree \<Rightarrow>
             (case single_loop cf collection_id extention anth_ids_single (tree, w) of
                Inl ew \<Rightarrow> Inl ew
              | Inr tw \<Rightarrow>
                  (case multi_loop cf collection_id extention anth_ids_multiple tw of
                     Inl ew \<Rightarrow> Inl ew
                   | Inr (tree', w') \<Rightarrow> Inr w'))))"

fun file_loop ::
  "config \<Rightarrow> string list \<Rightarrow> string list list \<Rightarrow> string list \<Rightarrow> world \<Rightarrow> (error \<times> world) + world" where
  "file_loop cf anth_ids_single anth_ids_multiple [] w = Inr w"
| "file_loop cf anth_ids_single anth_ids_multiple (file # files) w =
     (case process_file cf anth_ids_single anth_ids_multiple file w of
        Inl ew \<Rightarrow> Inl ew
      | Inr w' \<Rightarrow> file_loop cf anth_ids_single anth_ids_multiple files w')"

text \<open>The comprehension that selects the documents.\<close>

definition xml_files :: "string list \<Rightarrow> string list \<Rightarrow> string list" where
  "xml_files collection_ids entries =
     filter (\<lambda>file. fst (splitext file) \<in> set collection_ids) entries"

definition main :: "config \<Rightarrow> env \<Rightarrow> string \<Rightarrow> world \<Rightarrow> (error \<times> world) + world" where
  "main cf e video_dir w =
     (case get_collection_ids (deconstruct_anthology_id cf) e video_dir of
        Inl err \<Rightarrow> Inl (err, w)
      | Inr collection_ids \<Rightarrow>
          (case listdir e (DATA_DIR cf) of
             None \<Rightarrow> Inl (ListdirError, w)
           | Some entries \<Rightarrow>
               (case get_anth_ids e video_dir of (anth_ids_single, anth_ids_multiple) \<Rightarrow>
                  file_loop cf anth_ids_single anth_ids_multiple
                    (xml_files collection_ids entries) w)))"

text \<open>The world a run leaves behind, whether it completes or stops at an error.\<close>

definition final_world :: "(error \<times> world) + world \<Rightarrow> world" where
  "final_world r = (case r of Inl (err, w) \<Rightarrow> w | Inr w \<Rightarrow> w)"

subsection \<open>Notions used in the statements\<close>

text \<open>The node at a position reported by \<^const>\<open>find_paper\<close>.\<close>

definition node_at :: "xml \<Rightarrow> nat \<times> nat \<Rightarrow> xml" where
  "node_at root pos = children (children root ! fst pos) ! snd pos"

text \<open>The world a loop over identifiers leaves behind, whether it completes or stops.\<close>

definition loop_world :: "(error \<times> world) + (xml \<times> world) \<Rightarrow> world" where
  "loop_world r = (case r of Inl (err, w) \<Rightarrow> w | Inr (tree, w) \<Rightarrow> w)"

text \<open>
  Between two worlds only paths of \<open>S\<close> were opened for writing, and every document
  outside \<open>S\<close> is what it was.
\<close>

definition wrote_only :: "string set \<Rightarrow> world \<Rightarrow> world \<Rightarrow> bool" where
  "wrote_only S w w' \<longleftrightarrow>
     (\<exists>ps. written w' = written w @ ps \<and> set ps \<subseteq> S) \<and> (\<forall>p. p \<notin> S \<longrightarrow> store w' p = store w p)"

subsection \<open>A small installation, for evaluating the definitions\<close>

text \<open>
  A video directory \<^verbatim>\<open>videos\<close>, a directory \<^verbatim>\<open>short\<close> with one short file name, and a
  metadata directory with three collections. The pattern \<^verbatim>\<open>vid*\<close> expands to \<^verbatim>\<open>videos\<close>.
\<close>

definition example_env :: env where
  "example_env =
     \<lparr>listdir = (\<lambda>d. if d = ''videos''
                        then Some [''N13-1001.mp4'', ''N13-4001.2.mp4'', ''N13-4001.1.mp4'', ''Q13-1001.mp4'']
                      else if d = ''short'' then Some [''a.mp4'']
                      else if d = ''/repo/bin/../data/xml''
                        then Some [''N13.xml'', ''Q13.xml'', ''R13.xml'']
                      else None),
      glob_dirs = (\<lambda>p. if p = ''vid*'' then [''videos''] else [])\<rparr>"

definition example_dec :: deconstruct where
  "example_dec s =
     (if s = ''N13-1001'' then Some (''N13'', ''1'', ''1'')
      else if s = ''N13-4001'' then Some (''N13'', ''4'', ''1'')
      else if s = ''Q13-1001'' then Some (''Q13'', ''1'', ''1'')
      else None)"

definition paper_node :: "string \<Rightarrow> xml" where
  "paper_node i =
     Element ''paper'' [(''id'', i)] None None [Element ''title'' [] (Some ''A title'') None []]"

definition n13_doc :: xml where
  "n13_doc =
     Element ''collection'' [(''id'', ''N13'')] None None
       [Element ''volume'' [(''id'', ''1'')] None None [paper_node ''1''],
        Element ''volume'' [(''id'', ''4'')] None None [paper_node ''1'']]"

definition q13_doc :: xml where
  "q13_doc =
     Element ''collection'' [(''id'', ''Q13'')] None None
       [Element ''volume'' [(''id'', ''1'')] None None [paper_node ''1'']]"

definition example_config :: config where
  "example_config =
     \<lparr>deconstruct_anthology_id = example_dec, indent = (\<lambda>t. t), DATA_DIR = ''/repo/bin/../data/xml''\<rparr>"

definition example_world :: world where
  "example_world =
     \<lparr>store = [''/repo/bin/../data/xml/N13.xml'' \<mapsto> n13_doc,
               ''/repo/bin/../data/xml/Q13.xml'' \<mapsto> q13_doc,
               ''/repo/bin/../data/xml/R13.xml'' \<mapsto> q13_doc],
      written = []\<rparr>"

text \<open>A collection document without volumes, and a metadata directory that holds only it.\<close>

definition empty_doc :: xml where
  "empty_doc = Element ''collection'' [(''id'', ''N13'')] None None []"

definition broken_world :: world where
  "broken_world = \<lparr>store = [''/repo/bin/../data/xml/N13.xml'' \<mapsto> empty_doc], written = []\<rparr>"

section \<open>Properties of the scanner\<close>

lemma split_dot_nonempty: "split_dot s \<noteq> []"
  by (induction s) (auto split: list.splits)

lemma split_dot_no_dot: "CHR ''.'' \<notin> set s \<Longrightarrow> split_dot s = [s]"
  by (induction s) auto

lemma split_dot_append:
  "CHR ''.'' \<notin> set a \<Longrightarrow> split_dot (a @ CHR ''.'' # b) = a # split_dot b"
  by (induction a) auto

lemma length_split_dot: "length (split_dot s) = Suc (length (filter (\<lambda>c. c = CHR ''.'') s))"
  by (induction s) (auto split: list.splits simp: split_dot_nonempty)

lemma split_dot_has_dot: "CHR ''.'' \<in> set s \<Longrightarrow> 2 \<le> length (split_dot s)"
  by (simp add: length_split_dot Suc_le_eq filter_empty_conv)

lemma suffix_mp4_has_dot: "suffix ''.mp4'' s \<Longrightarrow> CHR ''.'' \<in> set s"
  by (auto simp: suffix_def)

lemma head_of_pattern:
  "rev (dropWhile (\<lambda>c. c \<noteq> CHR ''/'') (rev (video_dir @ ''/*.mp4''))) = video_dir @ ''/''"
  by simp

lemma rstrip_sep_snoc: "rstrip_sep (s @ ''/'') = rstrip_sep s"
  by (simp add: rstrip_sep_def)

lemma dirname_of_pattern:
  "fst (path_split (video_dir @ ''/*.mp4'')) =
     (if \<exists>c \<in> set video_dir. c \<noteq> CHR ''/'' then rstrip_sep video_dir else video_dir @ ''/'')"
proof -
  have "fst (path_split (video_dir @ ''/*.mp4'')) =
     (if \<exists>c \<in> set (video_dir @ ''/''). c \<noteq> CHR ''/'' then rstrip_sep (video_dir @ ''/'') else video_dir @ ''/'')"
    unfolding path_split_def Let_def head_of_pattern by simp
  then show ?thesis by (simp add: rstrip_sep_snoc)
qed

lemma rstrip_sep_decomp:
  "s = rstrip_sep s @ replicate (length (takeWhile (\<lambda>c. c = CHR ''/'') (rev s))) (CHR ''/'')"
proof -
  let ?P = "\<lambda>c. c = CHR ''/''"
  have tw: "takeWhile ?P (rev s) = replicate (length (takeWhile ?P (rev s))) (CHR ''/'')"
    by (rule replicate_eqI) (auto dest: set_takeWhileD)
  have "rev (rev s) = rev (takeWhile ?P (rev s) @ dropWhile ?P (rev s))" by simp
  then have "s = rev (dropWhile ?P (rev s)) @ rev (takeWhile ?P (rev s))"
    by (simp only: rev_append rev_rev_ident)
  also have "rev (takeWhile ?P (rev s)) = replicate (length (takeWhile ?P (rev s))) (CHR ''/'')"
    by (subst tw) simp
  finally show ?thesis by (simp add: rstrip_sep_def)
qed


lemma rstrip_sep_last:
  assumes "\<exists>c \<in> set s. c \<noteq> CHR ''/''"
  shows "rstrip_sep s \<noteq> [] \<and> last (rstrip_sep s) \<noteq> CHR ''/''"
proof -
  let ?P = "\<lambda>c. c = CHR ''/''"
  from assms have ne: "dropWhile ?P (rev s) \<noteq> []" by (auto simp: dropWhile_eq_Nil_conv)
  then have "\<not> ?P (hd (dropWhile ?P (rev s)))" by (rule hd_dropWhile)
  with ne show ?thesis by (simp add: rstrip_sep_def last_rev)
qed



lemma has_magic_snoc_seps: "has_magic (b @ replicate k (CHR ''/'')) = has_magic b"
  by (simp add: has_magic_def)

lemma has_magic_rstrip: "has_magic (rstrip_sep s) = has_magic s"
proof -
  have "has_magic s = has_magic (rstrip_sep s @ replicate (length (takeWhile (\<lambda>c. c = CHR ''/'') (rev s))) (CHR ''/''))"
    by (rule arg_cong [of _ _ has_magic]) (rule rstrip_sep_decomp)
  also have "\<dots> = has_magic (rstrip_sep s)" by (rule has_magic_snoc_seps)
  finally show ?thesis by (rule sym)
qed

lemma has_magic_dirname:
  "has_magic (fst (path_split (video_dir @ ''/*.mp4''))) = has_magic video_dir"
proof (cases "\<exists>c \<in> set video_dir. c \<noteq> CHR ''/''")
  case True
  then have "fst (path_split (video_dir @ ''/*.mp4'')) = rstrip_sep video_dir"
    by (simp only: dirname_of_pattern if_True)
  then show ?thesis by (simp only: has_magic_rstrip)
next
  case False
  then have "fst (path_split (video_dir @ ''/*.mp4'')) = video_dir @ ''/''"
    by (simp only: dirname_of_pattern if_False)
  then have "fst (path_split (video_dir @ ''/*.mp4'')) = video_dir @ replicate 1 (CHR ''/'')"
    by simp
  then show ?thesis by (simp only: has_magic_snoc_seps)
qed


text \<open>The shape of the globbed paths when the directory is taken literally.\<close>

lemma glob_literal_shape:
  assumes "\<not> has_magic video_dir" and "file \<in> set (glob_mp4 e video_dir)"
  shows "\<exists>name. mp4_entry name \<and>
           ((\<forall>c \<in> set video_dir. c = CHR ''/'') \<and> file = video_dir @ CHR ''/'' # name
            \<or> (\<exists>base k. video_dir = base @ replicate k (CHR ''/'') \<and> base \<noteq> [] \<and>
                  last base \<noteq> CHR ''/'' \<and> file = base @ CHR ''/'' # name))"
proof -
  let ?d = "fst (path_split (video_dir @ ''/*.mp4''))"
  from assms(1) have "\<not> has_magic ?d" by (simp add: has_magic_dirname)
  with assms(2) have "file \<in> set (map (path_join ?d)
      (filter mp4_entry (case listdir e ?d of None \<Rightarrow> [] | Some ns \<Rightarrow> ns)))"
    by (simp add: glob_mp4_def Let_def)
  then obtain name where n: "mp4_entry name" "file = path_join ?d name"
    by auto
  show ?thesis
  proof (cases "\<exists>c \<in> set video_dir. c \<noteq> CHR ''/''")
    case True
    then have d: "?d = rstrip_sep video_dir" by (simp add: dirname_of_pattern)
    from True have l: "rstrip_sep video_dir \<noteq> []" "last (rstrip_sep video_dir) \<noteq> CHR ''/''"
      using rstrip_sep_last by blast+
    then have f: "file = rstrip_sep video_dir @ CHR ''/'' # name"
      using n d by (simp add: path_join_def)
    have "\<exists>base k. video_dir = base @ replicate k (CHR ''/'') \<and> base \<noteq> [] \<and>
                  last base \<noteq> CHR ''/'' \<and> file = base @ CHR ''/'' # name"
      by (intro exI conjI) (rule rstrip_sep_decomp, rule l(1), rule l(2), rule f)
    with n(1) show ?thesis by (intro exI [of _ name] conjI) (assumption, rule disjI2, assumption)
  next
    case False
    then have "?d = video_dir @ ''/''" by (simp only: dirname_of_pattern if_False)
    then have "file = video_dir @ CHR ''/'' # name" using n by (simp add: path_join_def)
    with False n(1) show ?thesis by (intro exI [of _ name]) blast
  qed
qed

lemma hd_split_dot_slash: "\<exists>rest. hd (split_dot (CHR ''/'' # s)) = CHR ''/'' # rest"
  by (cases "split_dot s") (auto simp: split_dot_nonempty)

lemma in_map_filter: "x \<in> set xs \<Longrightarrow> P x \<Longrightarrow> f x \<in> set (map f (filter P xs))"
  by simp

subsection \<open>Classification of file names\<close>

text \<open>
  Claim C2. A scanned file whose stripped name is \<^verbatim>\<open><id>.mp4\<close>, the identifier free of
  periods, is classified as a single video: its identifier is in the single-video list,
  the file contributes that identifier and nothing else, no sequence number is attached,
  and the multi-video list has no entry made of the bare identifier.
\<close>

theorem single_file_classified:
  assumes "file \<in> set (glob_mp4 e video_dir)"
    and "strip_dir video_dir file = ident @ ''.mp4''"
    and "CHR ''.'' \<notin> set ident"
  shows "ident \<in> set (fst (get_anth_ids e video_dir)) \<and>
         single_ids video_dir [file] = [ident] \<and>
         multiple_ids video_dir [file] = [] \<and>
         [ident] \<notin> set (snd (get_anth_ids e video_dir))"
proof -
  have seg: "split_dot (strip_dir video_dir file) = [ident, ''mp4'']"
    using assms(2,3) by (simp add: split_dot_append split_dot_no_dot)
  have "hd (split_dot (strip_dir video_dir file)) \<in> set (single_ids video_dir (glob_mp4 e video_dir))"
    unfolding single_ids_def using assms(1) by (rule in_map_filter) (simp add: seg)
  then have a: "ident \<in> set (fst (get_anth_ids e video_dir))"
    by (simp add: get_anth_ids_def seg)
  have b: "[ident] \<notin> set (snd (get_anth_ids e video_dir))"
  proof
    assume "[ident] \<in> set (snd (get_anth_ids e video_dir))"
    then obtain f where f: "2 < length (split_dot (strip_dir video_dir f))"
      "butlast (split_dot (strip_dir video_dir f)) = [ident]"
      by (auto simp: get_anth_ids_def multiple_ids_def)
    from f(2) have "length (butlast (split_dot (strip_dir video_dir f))) = 1" by simp
    with f(1) show False by simp
  qed
  from seg a b show ?thesis by (simp add: single_ids_def multiple_ids_def)
qed


subsection \<open>Evaluating the scanner on the small installation\<close>

lemma glob_example:
  "glob_mp4 example_env ''videos/'' =
     [''videos/N13-1001.mp4'', ''videos/N13-4001.2.mp4'', ''videos/N13-4001.1.mp4'', ''videos/Q13-1001.mp4'']"
  by (simp add: glob_mp4_def example_env_def path_split_def rstrip_sep_def has_magic_def
        mp4_entry_def path_join_def suffix_def)

lemma glob_example_bare:
  "glob_mp4 example_env ''videos'' =
     [''videos/N13-1001.mp4'', ''videos/N13-4001.2.mp4'', ''videos/N13-4001.1.mp4'', ''videos/Q13-1001.mp4'']"
  by (simp add: glob_mp4_def example_env_def path_split_def rstrip_sep_def has_magic_def
        mp4_entry_def path_join_def suffix_def)

lemma glob_example_magic:
  "glob_mp4 example_env ''vid*'' =
     [''videos/N13-1001.mp4'', ''videos/N13-4001.2.mp4'', ''videos/N13-4001.1.mp4'', ''videos/Q13-1001.mp4'']"
  by (simp add: glob_mp4_def example_env_def path_split_def rstrip_sep_def has_magic_def
        mp4_entry_def path_join_def suffix_def)

lemma glob_example_short:
  "glob_mp4 example_env ''short///'' = [''short/a.mp4'']"
  by (simp add: glob_mp4_def example_env_def path_split_def rstrip_sep_def has_magic_def
        mp4_entry_def path_join_def suffix_def)

text \<open>Claim C2 at \<^verbatim>\<open>videos/N13-1001.mp4\<close>.\<close>

theorem single_file_classified_witness:
  "''videos/N13-1001.mp4'' \<in> set (glob_mp4 example_env ''videos/'') \<and>
   strip_dir ''videos/'' ''videos/N13-1001.mp4'' = ''N13-1001'' @ ''.mp4'' \<and>
   CHR ''.'' \<notin> set ''N13-1001'' \<and>
   ''N13-1001'' \<in> set (fst (get_anth_ids example_env ''videos/'')) \<and>
   single_ids ''videos/'' [''videos/N13-1001.mp4''] = [''N13-1001''] \<and>
   multiple_ids ''videos/'' [''videos/N13-1001.mp4''] = [] \<and>
   [''N13-1001''] \<notin> set (snd (get_anth_ids example_env ''videos/''))"
proof -
  have h1: "''videos/N13-1001.mp4'' \<in> set (glob_mp4 example_env ''videos/'')"
    by (simp add: glob_example)
  have h2: "strip_dir ''videos/'' ''videos/N13-1001.mp4'' = ''N13-1001'' @ ''.mp4''"
    by (simp add: strip_dir_def)
  have h3: "CHR ''.'' \<notin> set ''N13-1001''" by simp
  from single_file_classified [OF h1 h2 h3] h1 h2 h3 show ?thesis by blast
qed


subsection \<open>Every scanned file lands in one list\<close>

lemma mp4_entry_shape: "mp4_entry name \<Longrightarrow> \<exists>c stem. name = c # stem @ ''.mp4''"
proof -
  assume a: "mp4_entry name"
  then obtain pre where p: "name = pre @ ''.mp4''" by (auto simp: mp4_entry_def suffix_def)
  with a have "pre \<noteq> []" by (auto simp: mp4_entry_def)
  then obtain c stem where "pre = c # stem" by (cases pre) auto
  with p show ?thesis by simp
qed

lemma trailing_seps_bound:
  assumes "\<not> suffix ''///'' (base @ replicate k (CHR ''/''))"
  shows "k \<le> 2"
proof (rule ccontr)
  assume "\<not> k \<le> 2"
  then have "k = (k - 3) + 3" by simp
  then have "replicate k (CHR ''/'') = replicate (k - 3) (CHR ''/'') @ replicate 3 (CHR ''/'')"
    by (simp only: replicate_add [symmetric])
  moreover have "replicate 3 (CHR ''/'') = ''///''" by (simp add: numeral_3_eq_3)
  ultimately have "base @ replicate k (CHR ''/'') = (base @ replicate (k - 3) (CHR ''/'')) @ ''///''"
    by simp
  then have "suffix ''///'' (base @ replicate k (CHR ''/''))"
    by (simp only: suffix_def) blast
  with assms show False by simp
qed

text \<open>For a literal directory with at most two trailing separators the stripped path keeps
  the extension.\<close>
lemma stripped_keeps_extension:
  assumes "\<not> has_magic video_dir" and "\<not> suffix ''///'' video_dir"
    and "file \<in> set (glob_mp4 e video_dir)"
  shows "suffix ''.mp4'' (strip_dir video_dir file)"
proof -
  from glob_literal_shape [OF assms(1,3)] obtain name where n: "mp4_entry name"
    and shape: "(\<forall>c \<in> set video_dir. c = CHR ''/'') \<and> file = video_dir @ CHR ''/'' # name
            \<or> (\<exists>base k. video_dir = base @ replicate k (CHR ''/'') \<and> base \<noteq> [] \<and>
                  last base \<noteq> CHR ''/'' \<and> file = base @ CHR ''/'' # name)"
    by blast
  from mp4_entry_shape [OF n] obtain c stem where nm: "name = c # stem @ ''.mp4''" by blast
  from shape show ?thesis
  proof
    assume "(\<forall>c \<in> set video_dir. c = CHR ''/'') \<and> file = video_dir @ CHR ''/'' # name"
    then have "strip_dir video_dir file = CHR ''/'' # c # stem @ ''.mp4''"
      by (simp add: strip_dir_def nm)
    then show ?thesis by (simp add: suffix_def)
  next
    assume "\<exists>base k. video_dir = base @ replicate k (CHR ''/'') \<and> base \<noteq> [] \<and>
                  last base \<noteq> CHR ''/'' \<and> file = base @ CHR ''/'' # name"
    then obtain base k where v: "video_dir = base @ replicate k (CHR ''/'')"
      and f: "file = base @ CHR ''/'' # name" by blast
    from assms(2) have "k \<le> 2" unfolding v by (rule trailing_seps_bound)
    then consider "k = 0" | "k = 1" | "k = 2" by linarith
    then show ?thesis
    proof cases
      case 1
      then have "strip_dir video_dir file = CHR ''/'' # c # stem @ ''.mp4''"
        by (simp add: strip_dir_def v f nm)
      then show ?thesis by (simp add: suffix_def)
    next
      case 2
      then have "strip_dir video_dir file = c # stem @ ''.mp4''"
        by (simp add: strip_dir_def v f nm)
      then show ?thesis by (simp add: suffix_def)
    next
      case 3
      then have "strip_dir video_dir file = stem @ ''.mp4''"
        by (simp add: strip_dir_def v f nm numeral_2_eq_2)
      then show ?thesis by (simp add: suffix_def)
    qed
  qed
qed

lemma length_filter_partition:
  "\<forall>x \<in> set xs. P x \<noteq> Q x \<Longrightarrow> length (filter P xs) + length (filter Q xs) = length xs"
  by (induction xs) auto

text \<open>
  Claim C8, amended. When the directory argument has no glob metacharacter and does not
  end in three or more separators, every scanned path keeps its extension after
  stripping, so exactly one of the two guards (segment count equal to 2, segment count
  greater than 2) holds for it, and the two lists together have one entry per scanned file.
\<close>

theorem scanned_file_classified_once:
  assumes "\<not> has_magic video_dir" and "\<not> suffix ''///'' video_dir"
  shows "(\<forall>file \<in> set (glob_mp4 e video_dir).
            (length (split_dot (strip_dir video_dir file)) = 2) \<noteq>
            (length (split_dot (strip_dir video_dir file)) > 2)) \<and>
         length (fst (get_anth_ids e video_dir)) + length (snd (get_anth_ids e video_dir)) =
           length (glob_mp4 e video_dir)"
proof -
  have part: "\<forall>file \<in> set (glob_mp4 e video_dir).
            (length (split_dot (strip_dir video_dir file)) = 2) \<noteq>
            (length (split_dot (strip_dir video_dir file)) > 2)"
  proof
    fix f assume "f \<in> set (glob_mp4 e video_dir)"
    with assms have "suffix ''.mp4'' (strip_dir video_dir f)" by (rule stripped_keeps_extension)
    then have "2 \<le> length (split_dot (strip_dir video_dir f))"
      by (intro split_dot_has_dot suffix_mp4_has_dot)
    then show "(length (split_dot (strip_dir video_dir f)) = 2) \<noteq>
            (length (split_dot (strip_dir video_dir f)) > 2)" by linarith
  qed
  from length_filter_partition [OF part] part show ?thesis
    by (simp add: get_anth_ids_def single_ids_def multiple_ids_def)
qed

text \<open>Claim C8, amended, at the directory \<^verbatim>\<open>videos/\<close>.\<close>

theorem scanned_file_classified_once_witness:
  "\<not> has_magic ''videos/'' \<and> \<not> suffix ''///'' ''videos/'' \<and>
   ''videos/N13-4001.2.mp4'' \<in> set (glob_mp4 example_env ''videos/'') \<and>
   ((length (split_dot (strip_dir ''videos/'' ''videos/N13-4001.2.mp4'')) = 2) \<noteq>
    (length (split_dot (strip_dir ''videos/'' ''videos/N13-4001.2.mp4'')) > 2)) \<and>
   length (fst (get_anth_ids example_env ''videos/'')) +
     length (snd (get_anth_ids example_env ''videos/'')) = 4 \<and>
   length (glob_mp4 example_env ''videos/'') = 4"
proof -
  have h1: "\<not> has_magic ''videos/''" by (simp add: has_magic_def)
  have h2: "\<not> suffix ''///'' ''videos/''" by (simp add: suffix_def)
  have h3: "''videos/N13-4001.2.mp4'' \<in> set (glob_mp4 example_env ''videos/'')"
    by (simp add: glob_example)
  have n: "length (glob_mp4 example_env ''videos/'') = 4" by (simp add: glob_example)
  note t = scanned_file_classified_once [OF h1 h2, of example_env]
  from t have "(length (split_dot (strip_dir ''videos/'' ''videos/N13-4001.2.mp4'')) = 2) \<noteq>
    (length (split_dot (strip_dir ''videos/'' ''videos/N13-4001.2.mp4'')) > 2)"
    using h3 by blast
  moreover from t have "length (fst (get_anth_ids example_env ''videos/'')) +
     length (snd (get_anth_ids example_env ''videos/'')) = 4"
    by (simp only: n)
  ultimately show ?thesis using h1 h2 h3 n by blast
qed

text \<open>
  Claim C8 as stated fails: \<^verbatim>\<open>glob\<close> drops the trailing separators of the directory part,
  the script still strips \<^verbatim>\<open>len(video_dir)\<close> characters, and with \<^verbatim>\<open>short///\<close> the scanned
  file \<^verbatim>\<open>short/a.mp4\<close> is cut down to \<^verbatim>\<open>mp4\<close>: one segment, in neither list.
\<close>

theorem scanned_file_unclassified_counterexample:
  "''short/a.mp4'' \<in> set (glob_mp4 example_env ''short///'') \<and>
   split_dot (strip_dir ''short///'' ''short/a.mp4'') = [''mp4''] \<and>
   \<not> length (split_dot (strip_dir ''short///'' ''short/a.mp4'')) = 2 \<and>
   \<not> length (split_dot (strip_dir ''short///'' ''short/a.mp4'')) > 2 \<and>
   get_anth_ids example_env ''short///'' = ([], [])"
  by (simp add: glob_example_short get_anth_ids_def single_ids_def multiple_ids_def strip_dir_def)

subsection \<open>Stripping the directory prefix\<close>

lemma literal_bare_dir_shape:
  assumes "\<not> has_magic video_dir" and "\<not> suffix ''/'' video_dir"
    and "file \<in> set (glob_mp4 e video_dir)"
  shows "\<exists>name. file = video_dir @ CHR ''/'' # name"
proof -
  from glob_literal_shape [OF assms(1,3)] obtain name where
    shape: "(\<forall>c \<in> set video_dir. c = CHR ''/'') \<and> file = video_dir @ CHR ''/'' # name
            \<or> (\<exists>base k. video_dir = base @ replicate k (CHR ''/'') \<and> base \<noteq> [] \<and>
                  last base \<noteq> CHR ''/'' \<and> file = base @ CHR ''/'' # name)"
    by blast
  from shape show ?thesis
  proof
    assume "(\<forall>c \<in> set video_dir. c = CHR ''/'') \<and> file = video_dir @ CHR ''/'' # name"
    then show ?thesis by blast
  next
    assume "\<exists>base k. video_dir = base @ replicate k (CHR ''/'') \<and> base \<noteq> [] \<and>
                  last base \<noteq> CHR ''/'' \<and> file = base @ CHR ''/'' # name"
    then obtain base k where v: "video_dir = base @ replicate k (CHR ''/'')"
      and f: "file = base @ CHR ''/'' # name" by blast
    have "k = 0"
    proof (rule ccontr)
      assume "k \<noteq> 0"
      then obtain j where "k = Suc j" by (cases k) auto
      then have "base @ replicate k (CHR ''/'') = (base @ replicate j (CHR ''/'')) @ ''/''"
        by (simp add: replicate_append_same)
      then have "suffix ''/'' (base @ replicate k (CHR ''/''))"
        by (simp only: suffix_def) blast
      moreover have "\<not> suffix ''/'' (base @ replicate k (CHR ''/''))"
        using assms(2) v by simp
      ultimately show False by blast
    qed
    with v f show ?thesis by simp
  qed
qed

text \<open>
  Claim C9, amended. The script removes \<^verbatim>\<open>len(video_dir)\<close> leading characters from each
  globbed path. When the directory argument has no glob metacharacter and does not end
  with a separator, every globbed path is the argument followed by a separator and the
  entry name, so what is removed is exactly the argument and every derived identifier,
  in the single-video list and in the multi-video list, begins with \<^verbatim>\<open>/\<close>.
\<close>

theorem literal_dir_without_separator:
  assumes "\<not> has_magic video_dir" and "\<not> suffix ''/'' video_dir"
  shows "(\<forall>file \<in> set (glob_mp4 e video_dir).
            file = video_dir @ strip_dir video_dir file \<and>
            (\<exists>rest. hd (split_dot (strip_dir video_dir file)) = CHR ''/'' # rest)) \<and>
         (\<forall>anth_id \<in> set (fst (get_anth_ids e video_dir)). \<exists>rest. anth_id = CHR ''/'' # rest) \<and>
         (\<forall>entry \<in> set (snd (get_anth_ids e video_dir)). \<exists>rest. hd entry = CHR ''/'' # rest)"
proof -
  have per_file: "f = video_dir @ strip_dir video_dir f \<and>
            (\<exists>rest. hd (split_dot (strip_dir video_dir f)) = CHR ''/'' # rest)"
    if "f \<in> set (glob_mp4 e video_dir)" for f
  proof -
    from literal_bare_dir_shape [OF assms that] obtain name
      where f: "f = video_dir @ CHR ''/'' # name" by blast
    then have s: "strip_dir video_dir f = CHR ''/'' # name" by (simp add: strip_dir_def)
    from hd_split_dot_slash [of name] f s show ?thesis by simp
  qed
  have singles: "\<exists>rest. a = CHR ''/'' # rest" if "a \<in> set (fst (get_anth_ids e video_dir))" for a
  proof -
    from that obtain f where "f \<in> set (glob_mp4 e video_dir)"
      and "a = hd (split_dot (strip_dir video_dir f))"
      by (auto simp: get_anth_ids_def single_ids_def)
    with per_file show ?thesis by simp
  qed
  have multis: "\<exists>rest. hd m = CHR ''/'' # rest" if "m \<in> set (snd (get_anth_ids e video_dir))" for m
  proof -
    from that obtain f where f: "f \<in> set (glob_mp4 e video_dir)"
      and l: "2 < length (split_dot (strip_dir video_dir f))"
      and m: "m = butlast (split_dot (strip_dir video_dir f))"
      by (auto simp: get_anth_ids_def multiple_ids_def)
    from l have "hd m = hd (split_dot (strip_dir video_dir f))"
      unfolding m by (cases "split_dot (strip_dir video_dir f)") auto
    with per_file [OF f] show ?thesis by simp
  qed
  from per_file singles multis show ?thesis by blast
qed

text \<open>Claim C9, amended, at the directory \<^verbatim>\<open>videos\<close>.\<close>

theorem literal_dir_without_separator_witness:
  "\<not> has_magic ''videos'' \<and> \<not> suffix ''/'' ''videos'' \<and>
   ''videos/N13-1001.mp4'' \<in> set (glob_mp4 example_env ''videos'') \<and>
   ''videos/N13-1001.mp4'' = ''videos'' @ strip_dir ''videos'' ''videos/N13-1001.mp4'' \<and>
   (\<exists>rest. hd (split_dot (strip_dir ''videos'' ''videos/N13-1001.mp4'')) = CHR ''/'' # rest) \<and>
   get_anth_ids example_env ''videos'' =
     ([''/N13-1001'', ''/Q13-1001''], [[''/N13-4001'', ''1''], [''/N13-4001'', ''2'']])"
proof -
  have h1: "\<not> has_magic ''videos''" by (simp add: has_magic_def)
  have h2: "\<not> suffix ''/'' ''videos''" by (simp add: suffix_def)
  have h3: "''videos/N13-1001.mp4'' \<in> set (glob_mp4 example_env ''videos'')"
    by (simp add: glob_example_bare)
  have v: "get_anth_ids example_env ''videos'' =
     ([''/N13-1001'', ''/Q13-1001''], [[''/N13-4001'', ''1''], [''/N13-4001'', ''2'']])"
    by (simp add: get_anth_ids_def glob_example_bare single_ids_def multiple_ids_def strip_dir_def)
  from literal_dir_without_separator [OF h1 h2, of example_env] h3
  have "''videos/N13-1001.mp4'' = ''videos'' @ strip_dir ''videos'' ''videos/N13-1001.mp4'' \<and>
   (\<exists>rest. hd (split_dot (strip_dir ''videos'' ''videos/N13-1001.mp4'')) = CHR ''/'' # rest)"
    by blast
  with h1 h2 h3 v show ?thesis by blast
qed

text \<open>
  Claim C9 as stated fails for a directory argument that is a pattern: \<^verbatim>\<open>vid*\<close> does not
  end with a separator, \<^verbatim>\<open>glob\<close> expands it to \<^verbatim>\<open>videos\<close>, and stripping four characters
  from \<^verbatim>\<open>videos/N13-1001.mp4\<close> leaves the identifier \<^verbatim>\<open>os/N13-1001\<close>.
\<close>

theorem pattern_dir_counterexample:
  "\<not> suffix ''/'' ''vid*'' \<and>
   ''videos/N13-1001.mp4'' \<in> set (glob_mp4 example_env ''vid*'') \<and>
   hd (split_dot (strip_dir ''vid*'' ''videos/N13-1001.mp4'')) = ''os/N13-1001'' \<and>
   get_anth_ids example_env ''vid*'' =
     ([''os/N13-1001'', ''os/Q13-1001''], [[''os/N13-4001'', ''1''], [''os/N13-4001'', ''2'']])"
  by (simp add: glob_example_magic get_anth_ids_def single_ids_def multiple_ids_def strip_dir_def
        suffix_def)

section \<open>Selection of the documents\<close>

lemma splitext_concat: "fst (splitext p) @ snd (splitext p) = p"
  by (simp add: splitext_def Let_def)

lemma collection_codes_set:
  "collection_codes dec video_dir files = Inr cs \<Longrightarrow>
   set cs = {c. \<exists>file \<in> set files. \<exists>v p.
                  dec (hd (split_dot (strip_dir video_dir file))) = Some (c, v, p)}"
proof (induction files arbitrary: cs)
  case Nil
  then show ?case by simp
next
  case (Cons f fs)
  from Cons.prems obtain c v p cs' where
    d: "dec (hd (split_dot (strip_dir video_dir f))) = Some (c, v, p)"
    and r: "collection_codes dec video_dir fs = Inr cs'" and cs: "cs = c # cs'"
    by (auto split: option.splits sum.splits)
  from Cons.IH [OF r] d cs show ?case by auto
qed

lemma collection_ids_example:
  "get_collection_ids example_dec example_env ''videos/'' = Inr [''N13'', ''Q13'']"
  by (simp add: get_collection_ids_def glob_example strip_dir_def example_dec_def)

lemma anth_ids_example:
  "get_anth_ids example_env ''videos/'' =
     ([''N13-1001'', ''Q13-1001''], [[''N13-4001'', ''1''], [''N13-4001'', ''2'']])"
  by (simp add: get_anth_ids_def glob_example single_ids_def multiple_ids_def strip_dir_def)

lemma xml_files_example:
  "xml_files [''N13'', ''Q13''] [''N13.xml'', ''Q13.xml'', ''R13.xml''] = [''N13.xml'', ''Q13.xml'']"
  by (simp add: xml_files_def splitext_def rfind_def)

text \<open>
  Claim C6. When the scan succeeds and the metadata directory can be listed, the codes
  the run works with are the collection codes of the scanned files, the documents it
  selects are exactly the entries of the metadata directory whose name without extension
  is one of these codes, and the run is the loop over these documents. For the codes
  \<^verbatim>\<open>N13\<close>, \<^verbatim>\<open>Q13\<close> and the entries \<^verbatim>\<open>N13.xml\<close>, \<^verbatim>\<open>Q13.xml\<close>, \<^verbatim>\<open>R13.xml\<close> the selection is
  \<^verbatim>\<open>N13.xml\<close>, \<^verbatim>\<open>Q13.xml\<close>.
\<close>

theorem selected_documents:
  assumes "get_collection_ids (deconstruct_anthology_id cf) e video_dir = Inr collection_ids"
    and "listdir e (DATA_DIR cf) = Some entries"
  shows "set collection_ids =
           {c. \<exists>file \<in> set (glob_mp4 e video_dir). \<exists>v p.
                 deconstruct_anthology_id cf (hd (split_dot (strip_dir video_dir file))) = Some (c, v, p)} \<and>
         set (xml_files collection_ids entries) =
           {file \<in> set entries. fst (splitext file) \<in> set collection_ids} \<and>
         main cf e video_dir w =
           file_loop cf (fst (get_anth_ids e video_dir)) (snd (get_anth_ids e video_dir))
             (xml_files collection_ids entries) w \<and>
         xml_files [''N13'', ''Q13''] [''N13.xml'', ''Q13.xml'', ''R13.xml''] = [''N13.xml'', ''Q13.xml'']"
proof -
  from assms(1) obtain cs where
    c: "collection_codes (deconstruct_anthology_id cf) video_dir (glob_mp4 e video_dir) = Inr cs"
    and r: "collection_ids = remdups cs"
    by (auto simp: get_collection_ids_def split: sum.splits)
  from collection_codes_set [OF c] r have a: "set collection_ids =
           {c. \<exists>file \<in> set (glob_mp4 e video_dir). \<exists>v p.
                 deconstruct_anthology_id cf (hd (split_dot (strip_dir video_dir file))) = Some (c, v, p)}"
    by simp
  have b: "set (xml_files collection_ids entries) =
           {file \<in> set entries. fst (splitext file) \<in> set collection_ids}"
    by (simp add: xml_files_def)
  have m: "main cf e video_dir w =
           file_loop cf (fst (get_anth_ids e video_dir)) (snd (get_anth_ids e video_dir))
             (xml_files collection_ids entries) w"
    using assms by (simp add: main_def split: prod.splits)
  from a b m xml_files_example show ?thesis by blast
qed

text \<open>Claim C6 on the small installation.\<close>

theorem selected_documents_witness:
  "get_collection_ids (deconstruct_anthology_id example_config) example_env ''videos/'' = Inr [''N13'', ''Q13''] \<and>
   listdir example_env (DATA_DIR example_config) = Some [''N13.xml'', ''Q13.xml'', ''R13.xml''] \<and>
   set (xml_files [''N13'', ''Q13''] [''N13.xml'', ''Q13.xml'', ''R13.xml'']) =
     {file \<in> set [''N13.xml'', ''Q13.xml'', ''R13.xml'']. fst (splitext file) \<in> set [''N13'', ''Q13'']} \<and>
   xml_files [''N13'', ''Q13''] [''N13.xml'', ''Q13.xml'', ''R13.xml''] = [''N13.xml'', ''Q13.xml''] \<and>
   main example_config example_env ''videos/'' example_world =
     file_loop example_config [''N13-1001'', ''Q13-1001''] [[''N13-4001'', ''1''], [''N13-4001'', ''2'']]
       [''N13.xml'', ''Q13.xml''] example_world"
proof -
  have h1: "get_collection_ids (deconstruct_anthology_id example_config) example_env ''videos/'' = Inr [''N13'', ''Q13'']"
    by (simp add: example_config_def collection_ids_example)
  have h2: "listdir example_env (DATA_DIR example_config) = Some [''N13.xml'', ''Q13.xml'', ''R13.xml'']"
    by (simp add: example_config_def example_env_def)
  note t = selected_documents [OF h1 h2, of example_world]
  from t have c2: "set (xml_files [''N13'', ''Q13''] [''N13.xml'', ''Q13.xml'', ''R13.xml'']) =
     {file \<in> set [''N13.xml'', ''Q13.xml'', ''R13.xml'']. fst (splitext file) \<in> set [''N13'', ''Q13'']}"
    by (rule conjunct1 [OF conjunct2])
  from t have c3: "xml_files [''N13'', ''Q13''] [''N13.xml'', ''Q13.xml'', ''R13.xml''] = [''N13.xml'', ''Q13.xml'']"
    by (rule conjunct2 [OF conjunct2 [OF conjunct2]])
  from t have "main example_config example_env ''videos/'' example_world =
     file_loop example_config (fst (get_anth_ids example_env ''videos/''))
       (snd (get_anth_ids example_env ''videos/''))
       (xml_files [''N13'', ''Q13''] [''N13.xml'', ''Q13.xml'', ''R13.xml'']) example_world"
    by (rule conjunct1 [OF conjunct2 [OF conjunct2]])
  then have c4: "main example_config example_env ''videos/'' example_world =
     file_loop example_config [''N13-1001'', ''Q13-1001''] [[''N13-4001'', ''1''], [''N13-4001'', ''2'']]
       [''N13.xml'', ''Q13.xml''] example_world"
    by (simp only: anth_ids_example c3 fst_conv snd_conv)
  from h1 h2 c2 c3 c4 show ?thesis by (intro conjI)
qed

section \<open>Locating the paper and inserting the tag\<close>

lemma first_index_Some:
  "first_index P xs = Some j \<Longrightarrow> j < length xs \<and> P (xs ! j) \<and> (\<forall>k < j. \<not> P (xs ! k))"
proof (induction xs arbitrary: j)
  case Nil
  then show ?case by simp
next
  case (Cons x xs)
  show ?case
  proof (cases "P x")
    case True
    with Cons.prems show ?thesis by simp
  next
    case False
    with Cons.prems obtain j' where j: "first_index P xs = Some j'" "j = Suc j'" by auto
    from Cons.IH [OF j(1)] False j(2) show ?thesis by (auto simp: less_Suc_eq_0_disj)
  qed
qed

lemma first_index_None: "first_index P xs = None \<longleftrightarrow> (\<forall>x \<in> set xs. \<not> P x)"
  by (induction xs) auto

lemma first_index_update:
  "P y = P (xs ! j) \<Longrightarrow> first_index P (xs[j := y]) = first_index P xs"
proof (induction xs arbitrary: j)
  case Nil
  then show ?case by simp
next
  case (Cons x xs)
  then show ?case by (cases j) auto
qed

lemma find_in_volumes_Some:
  "find_in_volumes v p els = Some (i, j) \<Longrightarrow>
     i < length els \<and> is_node ''volume'' v (els ! i) \<and>
     j < length (children (els ! i)) \<and> is_node ''paper'' p (children (els ! i) ! j)"
proof (induction els arbitrary: i)
  case Nil
  then show ?case by simp
next
  case (Cons el els)
  show ?case
  proof (cases "if is_node ''volume'' v el then first_index (is_node ''paper'' p) (children el) else None")
    case None
    with Cons.prems obtain i' where i: "find_in_volumes v p els = Some (i', j)" "i = Suc i'"
      by auto
    from Cons.IH [OF i(1)] i(2) show ?thesis by simp
  next
    case (Some j')
    with Cons.prems have ij: "i = 0" "j' = j" by auto
    from Some have "is_node ''volume'' v el" "first_index (is_node ''paper'' p) (children el) = Some j'"
      by (auto split: if_splits)
    with first_index_Some [of "is_node ''paper'' p" "children el" j'] ij show ?thesis by simp
  qed
qed

lemma find_in_volumes_exists:
  assumes "i < length els" "is_node ''volume'' v (els ! i)"
    "j < length (children (els ! i))" "is_node ''paper'' p (children (els ! i) ! j)"
  shows "find_in_volumes v p els \<noteq> None"
  using assms
proof (induction els arbitrary: i)
  case Nil
  then show ?case by simp
next
  case (Cons el els)
  show ?case
  proof (cases i)
    case 0
    with Cons.prems have "is_node ''volume'' v el" "first_index (is_node ''paper'' p) (children el) \<noteq> None"
      by (auto simp: first_index_None)
    then show ?thesis by auto
  next
    case (Suc i')
    with Cons.prems Cons.IH [of i'] have "find_in_volumes v p els \<noteq> None" by simp
    then show ?thesis by (auto split: option.splits)
  qed
qed


lemma is_node_append_child [simp]: "is_node t x (append_child el parent) = is_node t x parent"
  by (simp add: is_node_def append_child_def)

lemma is_node_update_child [simp]: "is_node t x (update_child k f el) = is_node t x el"
  by (simp add: is_node_def update_child_def)

lemma children_append_child [simp]: "children (append_child el parent) = children parent @ [el]"
  by (simp add: append_child_def)

lemma children_update_child [simp]:
  "children (update_child k f el) = (children el)[k := f (children el ! k)]"
  by (simp add: update_child_def)

lemma node_at_insert:
  "i < length (children root) \<Longrightarrow> j < length (children (children root ! i)) \<Longrightarrow>
   node_at (update_child i (update_child j f) root) (i, j) = f (node_at root (i, j))"
  by (simp add: node_at_def)

lemma find_in_volumes_update:
  assumes "is_node ''volume'' v el' = is_node ''volume'' v (els ! i)"
    and "first_index (is_node ''paper'' p) (children el') =
         first_index (is_node ''paper'' p) (children (els ! i))"
  shows "find_in_volumes v p (els[i := el']) = find_in_volumes v p els"
  using assms
proof (induction els arbitrary: i)
  case Nil
  then show ?case by simp
next
  case (Cons el els)
  show ?case
  proof (cases i)
    case 0
    with Cons.prems show ?thesis by simp
  next
    case (Suc k)
    with Cons.prems have "is_node ''volume'' v el' = is_node ''volume'' v (els ! k)"
      and "first_index (is_node ''paper'' p) (children el') =
         first_index (is_node ''paper'' p) (children (els ! k))" by simp_all
    then have "find_in_volumes v p (els[k := el']) = find_in_volumes v p els" by (rule Cons.IH)
    with Suc show ?thesis by (simp split: option.splits)
  qed
qed

lemma find_paper_insert:
  "find_paper v p (update_child i (update_child j (append_child el)) root) = find_paper v p root"
  unfolding find_paper_def children_update_child
  by (rule find_in_volumes_update) (simp_all add: first_index_update)

lemma find_paper_Some:
  assumes "find_paper v p root = Some pos"
  shows "fst pos < length (children root) \<and> is_node ''volume'' v (children root ! fst pos) \<and>
         snd pos < length (children (children root ! fst pos)) \<and>
         is_node ''paper'' p (node_at root pos)"
  using find_in_volumes_Some [of v p "children root" "fst pos" "snd pos"] assms
  by (simp add: find_paper_def node_at_def)

lemma add_single_found:
  assumes "dec anth_id = Some (c, v, p)" and "find_paper v p root = Some (i, j)"
  shows "add_video_tag_single dec anth_id root =
         Inr (update_child i (update_child j
               (append_child (Element ''video'' [(''href'', anth_id @ ''.mp4'')] None None []))) root)"
  using assms by (simp add: add_video_tag_single_def make_simple_element_def)

lemma add_multiple_found:
  assumes "dec anth_id = Some (c, v, p)" and "find_paper v p root = Some (i, j)"
  shows "add_video_tag_multiple dec anth_id n root =
         Inr (update_child i (update_child j
               (append_child (Element ''video'' [(''href'', anth_id @ ''.'' @ n @ ''.mp4'')] None None []))) root)"
  using assms by (simp add: add_video_tag_multiple_def make_simple_element_def)

text \<open>
  Claim C1. Let the document have a paper node with id \<open>P\<close> under a volume node with id
  \<open>V\<close>, and let the identifier decompose to (collection, \<open>V\<close>, \<open>P\<close>). Then the path query
  finds such a paper node, inserting the single-video tag succeeds and changes the
  document only by appending one node to that paper node, as its last child: a
  \<^verbatim>\<open>video\<close> element whose \<^verbatim>\<open>href\<close> is the identifier followed by \<^verbatim>\<open>.mp4\<close>. For a multi-video
  entry with sequence number \<open>n\<close> the appended \<^verbatim>\<open>href\<close> is the identifier followed by
  \<^verbatim>\<open>.n.mp4\<close>.
\<close>

theorem video_tag_appended:
  assumes "dec anth_id = Some (collection_id, V, P)"
    and "i < length (children root)" and "is_node ''volume'' V (children root ! i)"
    and "j < length (children (children root ! i))"
    and "is_node ''paper'' P (children (children root ! i) ! j)"
  shows "\<exists>pos root1 rootn.
           find_paper V P root = Some pos \<and>
           is_node ''volume'' V (children root ! fst pos) \<and>
           is_node ''paper'' P (node_at root pos) \<and>
           add_video_tag_single dec anth_id root = Inr root1 \<and>
           root1 = update_child (fst pos) (update_child (snd pos)
                     (append_child (Element ''video'' [(''href'', anth_id @ ''.mp4'')] None None []))) root \<and>
           children (node_at root1 pos) =
             children (node_at root pos) @ [Element ''video'' [(''href'', anth_id @ ''.mp4'')] None None []] \<and>
           add_video_tag_multiple dec anth_id n root = Inr rootn \<and>
           rootn = update_child (fst pos) (update_child (snd pos)
                     (append_child (Element ''video'' [(''href'', anth_id @ ''.'' @ n @ ''.mp4'')] None None []))) root \<and>
           children (node_at rootn pos) =
             children (node_at root pos) @
               [Element ''video'' [(''href'', anth_id @ ''.'' @ n @ ''.mp4'')] None None []]"
proof -
  from find_in_volumes_exists [OF assms(2-5)] obtain i' j' where
    f: "find_paper V P root = Some (i', j')" by (auto simp: find_paper_def)
  from find_paper_Some [OF f] have b: "i' < length (children root)"
    "is_node ''volume'' V (children root ! i')"
    "j' < length (children (children root ! i'))" "is_node ''paper'' P (node_at root (i', j'))"
    by simp_all
  note s = add_single_found [where dec = dec and anth_id = anth_id, OF assms(1) f]
  note m = add_multiple_found [where dec = dec and anth_id = anth_id and n = n, OF assms(1) f]
  show ?thesis
    apply (rule exI [of _ "(i', j')"])
    apply (intro exI conjI)
            apply (rule f)
    using b(2) apply simp
          apply (rule b(4))
         apply (rule s)
        apply simp
       apply (simp add: node_at_insert [OF b(1) b(3)])
      apply (rule m)
     apply simp
    apply (simp add: node_at_insert [OF b(1) b(3)])
    done
qed

text \<open>
  Claim C5. Insertion is not idempotent: under the hypotheses of C1, inserting the tag for
  the same identifier twice, starting from the loaded document, succeeds both times and
  leaves two identical \<^verbatim>\<open>video\<close> nodes at the end of the same paper node; the second
  insertion changes the document again.
\<close>

theorem insertion_not_idempotent:
  assumes "dec anth_id = Some (collection_id, V, P)"
    and "i < length (children root)" and "is_node ''volume'' V (children root ! i)"
    and "j < length (children (children root ! i))"
    and "is_node ''paper'' P (children (children root ! i) ! j)"
  shows "\<exists>pos root1 root2.
           find_paper V P root = Some pos \<and>
           add_video_tag_single dec anth_id root = Inr root1 \<and>
           add_video_tag_single dec anth_id root1 = Inr root2 \<and>
           children (node_at root2 pos) =
             children (node_at root pos) @
               [Element ''video'' [(''href'', anth_id @ ''.mp4'')] None None [],
                Element ''video'' [(''href'', anth_id @ ''.mp4'')] None None []] \<and>
           root2 \<noteq> root1"
proof -
  let ?v = "Element ''video'' [(''href'', anth_id @ ''.mp4'')] None None []"
  from find_in_volumes_exists [OF assms(2-5)] obtain i' j' where
    f: "find_paper V P root = Some (i', j')" by (auto simp: find_paper_def)
  from find_paper_Some [OF f] have b: "i' < length (children root)"
    "j' < length (children (children root ! i'))"
    by simp_all
  let ?r1 = "update_child i' (update_child j' (append_child ?v)) root"
  let ?r2 = "update_child i' (update_child j' (append_child ?v)) ?r1"
  have s1: "add_video_tag_single dec anth_id root = Inr ?r1"
    by (rule add_single_found [where dec = dec and anth_id = anth_id, OF assms(1) f])
  have f1: "find_paper V P ?r1 = Some (i', j')" by (simp only: find_paper_insert f)
  have s2: "add_video_tag_single dec anth_id ?r1 = Inr ?r2"
    by (rule add_single_found [where dec = dec and anth_id = anth_id, OF assms(1) f1])
  have b1: "i' < length (children ?r1)" "j' < length (children (children ?r1 ! i'))"
    using b by simp_all
  have c1: "children (node_at ?r1 (i', j')) = children (node_at root (i', j')) @ [?v]"
    by (simp add: node_at_insert [OF b])
  have c2: "children (node_at ?r2 (i', j')) = children (node_at root (i', j')) @ [?v, ?v]"
    by (simp add: node_at_insert [OF b1] c1)
  have ne: "?r2 \<noteq> ?r1"
  proof
    assume "?r2 = ?r1"
    then have "children (node_at ?r2 (i', j')) = children (node_at ?r1 (i', j'))" by simp
    with c1 c2 show False by simp
  qed
  from f s1 s2 c2 ne show ?thesis by blast
qed

text \<open>Claim C1 on the document of collection N13, for \<^verbatim>\<open>N13-4001\<close>.\<close>

theorem video_tag_appended_witness:
  "example_dec ''N13-4001'' = Some (''N13'', ''4'', ''1'') \<and>
   1 < length (children n13_doc) \<and> is_node ''volume'' ''4'' (children n13_doc ! 1) \<and>
   0 < length (children (children n13_doc ! 1)) \<and>
   is_node ''paper'' ''1'' (children (children n13_doc ! 1) ! 0) \<and>
   find_paper ''4'' ''1'' n13_doc = Some (1, 0) \<and>
   (\<exists>root1 rootn.
      add_video_tag_single example_dec ''N13-4001'' n13_doc = Inr root1 \<and>
      children (node_at root1 (1, 0)) =
        [Element ''title'' [] (Some ''A title'') None [],
         Element ''video'' [(''href'', ''N13-4001.mp4'')] None None []] \<and>
      add_video_tag_multiple example_dec ''N13-4001'' ''2'' n13_doc = Inr rootn \<and>
      children (node_at rootn (1, 0)) =
        [Element ''title'' [] (Some ''A title'') None [],
         Element ''video'' [(''href'', ''N13-4001.2.mp4'')] None None []])"
proof -
  have h1: "example_dec ''N13-4001'' = Some (''N13'', ''4'', ''1'')" by (simp add: example_dec_def)
  have h2: "1 < length (children n13_doc)" by (simp add: n13_doc_def)
  have h3: "is_node ''volume'' ''4'' (children n13_doc ! 1)" by (simp add: n13_doc_def is_node_def)
  have h4: "0 < length (children (children n13_doc ! 1))" by (simp add: n13_doc_def paper_node_def)
  have h5: "is_node ''paper'' ''1'' (children (children n13_doc ! 1) ! 0)"
    by (simp add: n13_doc_def paper_node_def is_node_def)
  have f: "find_paper ''4'' ''1'' n13_doc = Some (1, 0)"
    by (simp add: find_paper_def n13_doc_def paper_node_def is_node_def)
  have c: "children (node_at n13_doc (1, 0)) = [Element ''title'' [] (Some ''A title'') None []]"
    by (simp add: node_at_def n13_doc_def paper_node_def)
  from video_tag_appended [where dec = example_dec and anth_id = "''N13-4001''" and n = "''2''",
      OF h1 h2 h3 h4 h5]
  obtain pos root1 rootn where p: "find_paper ''4'' ''1'' n13_doc = Some pos"
    and r: "add_video_tag_single example_dec ''N13-4001'' n13_doc = Inr root1"
      "children (node_at root1 pos) =
         children (node_at n13_doc pos) @ [Element ''video'' [(''href'', ''N13-4001'' @ ''.mp4'')] None None []]"
      "add_video_tag_multiple example_dec ''N13-4001'' ''2'' n13_doc = Inr rootn"
      "children (node_at rootn pos) =
         children (node_at n13_doc pos) @
           [Element ''video'' [(''href'', ''N13-4001'' @ ''.'' @ ''2'' @ ''.mp4'')] None None []]"
    by blast
  from p f have pos: "pos = (1, 0)" by simp
  from r c have "\<exists>root1 rootn.
      add_video_tag_single example_dec ''N13-4001'' n13_doc = Inr root1 \<and>
      children (node_at root1 (1, 0)) =
        [Element ''title'' [] (Some ''A title'') None [],
         Element ''video'' [(''href'', ''N13-4001.mp4'')] None None []] \<and>
      add_video_tag_multiple example_dec ''N13-4001'' ''2'' n13_doc = Inr rootn \<and>
      children (node_at rootn (1, 0)) =
        [Element ''title'' [] (Some ''A title'') None [],
         Element ''video'' [(''href'', ''N13-4001.2.mp4'')] None None []]"
    unfolding pos by simp
  with h1 h2 h3 h4 h5 f show ?thesis by (intro conjI)
qed

text \<open>Claim C5 on the document of collection N13, for \<^verbatim>\<open>N13-1001\<close>.\<close>

theorem insertion_not_idempotent_witness:
  "example_dec ''N13-1001'' = Some (''N13'', ''1'', ''1'') \<and>
   0 < length (children n13_doc) \<and> is_node ''volume'' ''1'' (children n13_doc ! 0) \<and>
   0 < length (children (children n13_doc ! 0)) \<and>
   is_node ''paper'' ''1'' (children (children n13_doc ! 0) ! 0) \<and>
   find_paper ''1'' ''1'' n13_doc = Some (0, 0) \<and>
   (\<exists>root1 root2.
      add_video_tag_single example_dec ''N13-1001'' n13_doc = Inr root1 \<and>
      add_video_tag_single example_dec ''N13-1001'' root1 = Inr root2 \<and>
      children (node_at root2 (0, 0)) =
        [Element ''title'' [] (Some ''A title'') None [],
         Element ''video'' [(''href'', ''N13-1001.mp4'')] None None [],
         Element ''video'' [(''href'', ''N13-1001.mp4'')] None None []])"
proof -
  have h1: "example_dec ''N13-1001'' = Some (''N13'', ''1'', ''1'')" by (simp add: example_dec_def)
  have h2: "0 < length (children n13_doc)" by (simp add: n13_doc_def)
  have h3: "is_node ''volume'' ''1'' (children n13_doc ! 0)" by (simp add: n13_doc_def is_node_def)
  have h4: "0 < length (children (children n13_doc ! 0))" by (simp add: n13_doc_def paper_node_def)
  have h5: "is_node ''paper'' ''1'' (children (children n13_doc ! 0) ! 0)"
    by (simp add: n13_doc_def paper_node_def is_node_def)
  have f: "find_paper ''1'' ''1'' n13_doc = Some (0, 0)"
    by (simp add: find_paper_def n13_doc_def paper_node_def is_node_def)
  have c: "children (node_at n13_doc (0, 0)) = [Element ''title'' [] (Some ''A title'') None []]"
    by (simp add: node_at_def n13_doc_def paper_node_def)
  from insertion_not_idempotent [where dec = example_dec and anth_id = "''N13-1001''",
      OF h1 h2 h3 h4 h5]
  obtain pos root1 root2 where p: "find_paper ''1'' ''1'' n13_doc = Some pos"
    and r: "add_video_tag_single example_dec ''N13-1001'' n13_doc = Inr root1"
      "add_video_tag_single example_dec ''N13-1001'' root1 = Inr root2"
      "children (node_at root2 pos) =
         children (node_at n13_doc pos) @
           [Element ''video'' [(''href'', ''N13-1001'' @ ''.mp4'')] None None [],
            Element ''video'' [(''href'', ''N13-1001'' @ ''.mp4'')] None None []]"
    by blast
  from p f have pos: "pos = (0, 0)" by simp
  from r c have "\<exists>root1 root2.
      add_video_tag_single example_dec ''N13-1001'' n13_doc = Inr root1 \<and>
      add_video_tag_single example_dec ''N13-1001'' root1 = Inr root2 \<and>
      children (node_at root2 (0, 0)) =
        [Element ''title'' [] (Some ''A title'') None [],
         Element ''video'' [(''href'', ''N13-1001.mp4'')] None None [],
         Element ''video'' [(''href'', ''N13-1001.mp4'')] None None []]"
    unfolding pos by simp
  with h1 h2 h3 h4 h5 f show ?thesis by (intro conjI)
qed

section \<open>The run\<close>

subsection \<open>A lookup miss stops the run\<close>

lemma single_loop_append:
  "single_loop cf cid ext (xs @ ys) st =
     (case single_loop cf cid ext xs st of Inl ew \<Rightarrow> Inl ew | Inr st' \<Rightarrow> single_loop cf cid ext ys st')"
proof (induction xs arbitrary: st)
  case Nil
  show ?case by (cases st) simp
next
  case (Cons x xs)
  show ?case by (cases st) (simp add: Cons.IH split: sum.splits)
qed

lemma add_single_miss:
  assumes "dec anth_id = Some (c, v, p)" and "find_paper v p tree = None"
  shows "add_video_tag_single dec anth_id tree = Inl LookupMiss"
  using assms by (simp add: add_video_tag_single_def make_simple_element_def)

lemma add_multiple_miss:
  assumes "dec anth_id = Some (c, v, p)" and "find_paper v p tree = None"
  shows "add_video_tag_multiple dec anth_id n tree = Inl LookupMiss"
  using assms by (simp add: add_video_tag_multiple_def make_simple_element_def)

text \<open>
  Claim C7. When the identifier decomposes to volume \<open>V\<close> and paper \<open>P\<close> and the path query
  finds no such node in the tree, both insertion functions fail with the lookup failure
  instead of returning. The loops do not catch it: a matching identifier with a lookup
  miss ends the loop over the identifiers with that failure, wherever it stands in the
  list, the identifiers after it are not processed, and the loop over the documents ends
  with the same failure.
\<close>

theorem lookup_miss_is_fatal:
  assumes "deconstruct_anthology_id cf anth_id = Some (c, V, P)"
    and "find_paper V P tree = None"
  shows "add_video_tag_single (deconstruct_anthology_id cf) anth_id tree = Inl LookupMiss \<and>
         add_video_tag_multiple (deconstruct_anthology_id cf) anth_id n tree = Inl LookupMiss \<and>
         (sublist cid anth_id \<longrightarrow>
            single_loop cf cid ext (anth_id # ids) (tree, w) = Inl (LookupMiss, w) \<and>
            multi_loop cf cid ext ((anth_id # n # others) # entries) (tree, w) = Inl (LookupMiss, w) \<and>
            (single_loop cf cid ext pre (tree0, w0) = Inr (tree, w) \<longrightarrow>
               single_loop cf cid ext (pre @ anth_id # ids) (tree0, w0) = Inl (LookupMiss, w)) \<and>
            (single_loop cf cid ext pre (tree0, w0) = Inr (tree, w) \<and>
             splitext xml_file = (cid, ext) \<and>
             store w0 (path_join (DATA_DIR cf) xml_file) = Some tree0 \<longrightarrow>
               file_loop cf (pre @ anth_id # ids) multis (xml_file # files) w0 = Inl (LookupMiss, w)))"
proof -
  have s: "add_video_tag_single (deconstruct_anthology_id cf) anth_id tree = Inl LookupMiss"
    by (rule add_single_miss [where dec = "deconstruct_anthology_id cf", OF assms(1,2)])
  have m: "add_video_tag_multiple (deconstruct_anthology_id cf) anth_id n tree = Inl LookupMiss"
    by (rule add_multiple_miss [where dec = "deconstruct_anthology_id cf", OF assms(1,2)])
  have l: "single_loop cf cid ext (anth_id # ids) (tree, w) = Inl (LookupMiss, w)"
    if "sublist cid anth_id"
    using that s by simp
  have ml: "multi_loop cf cid ext ((anth_id # n # others) # entries) (tree, w) = Inl (LookupMiss, w)"
    if "sublist cid anth_id"
    using that m by simp
  have a: "single_loop cf cid ext (pre @ anth_id # ids) (tree0, w0) = Inl (LookupMiss, w)"
    if "sublist cid anth_id" and "single_loop cf cid ext pre (tree0, w0) = Inr (tree, w)"
    using that(2) l [OF that(1)] by (simp add: single_loop_append)
  have f: "file_loop cf (pre @ anth_id # ids) multis (xml_file # files) w0 = Inl (LookupMiss, w)"
    if "sublist cid anth_id" and "single_loop cf cid ext pre (tree0, w0) = Inr (tree, w)"
      and "splitext xml_file = (cid, ext)" and "store w0 (path_join (DATA_DIR cf) xml_file) = Some tree0"
    using that(3,4) a [OF that(1,2)] by (simp add: process_file_def)
  from s m l ml a f show ?thesis by blast
qed

lemma splitext_examples:
  "splitext ''N13.xml'' = (''N13'', ''.xml'')" "splitext ''Q13.xml'' = (''Q13'', ''.xml'')"
  by (simp_all add: splitext_def rfind_def)

lemma listdir_example:
  "listdir example_env (DATA_DIR example_config) = Some [''N13.xml'', ''Q13.xml'', ''R13.xml'']"
  by (simp add: example_env_def example_config_def)

lemma main_example_unfold:
  "main example_config example_env ''videos/'' w =
     file_loop example_config [''N13-1001'', ''Q13-1001'']
       [[''N13-4001'', ''1''], [''N13-4001'', ''2'']] [''N13.xml'', ''Q13.xml''] w"
proof -
  have "get_collection_ids (deconstruct_anthology_id example_config) example_env ''videos/'' =
          Inr [''N13'', ''Q13'']"
    by (simp add: example_config_def collection_ids_example)
  then show ?thesis
    by (simp add: main_def listdir_example anth_ids_example xml_files_example)
qed

text \<open>Claim C7 on a metadata directory whose N13 document has no volumes.\<close>

theorem lookup_miss_is_fatal_witness:
  "deconstruct_anthology_id example_config ''N13-1001'' = Some (''N13'', ''1'', ''1'') \<and>
   find_paper ''1'' ''1'' empty_doc = None \<and>
   sublist ''N13'' ''N13-1001'' \<and>
   add_video_tag_single (deconstruct_anthology_id example_config) ''N13-1001'' empty_doc = Inl LookupMiss \<and>
   single_loop example_config ''N13'' ''.xml'' [''N13-1001'', ''Q13-1001''] (empty_doc, broken_world) =
     Inl (LookupMiss, broken_world) \<and>
   file_loop example_config [''N13-1001'', ''Q13-1001''] [[''N13-4001'', ''1''], [''N13-4001'', ''2'']]
     [''N13.xml'', ''Q13.xml''] broken_world = Inl (LookupMiss, broken_world) \<and>
   main example_config example_env ''videos/'' broken_world = Inl (LookupMiss, broken_world)"
proof -
  have h1: "deconstruct_anthology_id example_config ''N13-1001'' = Some (''N13'', ''1'', ''1'')"
    by (simp add: example_config_def example_dec_def)
  have h2: "find_paper ''1'' ''1'' empty_doc = None" by (simp add: find_paper_def empty_doc_def)
  have h3: "sublist ''N13'' ''N13-1001''" by (simp add: sublist_code)
  have p: "single_loop example_config ''N13'' ''.xml'' [] (empty_doc, broken_world) =
             Inr (empty_doc, broken_world)" by simp
  have q: "splitext ''N13.xml'' = (''N13'', ''.xml'')" by (rule splitext_examples)
  have r: "store broken_world (path_join (DATA_DIR example_config) ''N13.xml'') = Some empty_doc"
    by (simp add: broken_world_def example_config_def path_join_def)
  note t = lookup_miss_is_fatal [where cf = example_config and anth_id = "''N13-1001''"
      and tree = empty_doc and cid = "''N13''" and ext = "''.xml''" and w = broken_world
      and pre = "[]" and ?tree0.0 = empty_doc and ?w0.0 = broken_world and xml_file = "''N13.xml''"
      and ids = "[''Q13-1001'']" and multis = "[[''N13-4001'', ''1''], [''N13-4001'', ''2'']]"
      and files = "[''Q13.xml'']", OF h1 h2]
  from t have c1: "add_video_tag_single (deconstruct_anthology_id example_config) ''N13-1001'' empty_doc =
      Inl LookupMiss" by blast
  from t h3 have c2: "single_loop example_config ''N13'' ''.xml'' [''N13-1001'', ''Q13-1001'']
      (empty_doc, broken_world) = Inl (LookupMiss, broken_world)" by blast
  from t h3 p q r have "file_loop example_config ([] @ ''N13-1001'' # [''Q13-1001''])
      [[''N13-4001'', ''1''], [''N13-4001'', ''2'']] (''N13.xml'' # [''Q13.xml'']) broken_world =
      Inl (LookupMiss, broken_world)" by blast
  then have c3: "file_loop example_config [''N13-1001'', ''Q13-1001'']
      [[''N13-4001'', ''1''], [''N13-4001'', ''2'']] [''N13.xml'', ''Q13.xml''] broken_world =
      Inl (LookupMiss, broken_world)" by simp
  then have c4: "main example_config example_env ''videos/'' broken_world = Inl (LookupMiss, broken_world)"
    by (simp only: main_example_unfold)
  from h1 h2 h3 c1 c2 c3 c4 show ?thesis by (intro conjI)
qed

subsection \<open>One write per matching identifier\<close>



lemma update_xml_written:
  "written (snd (update_xml ind d c x t w)) = written w @ [path_join d (c @ x)]"
  by (simp add: update_xml_def Let_def)

lemma update_xml_store:
  "store (snd (update_xml ind d c x t w)) = (store w)(path_join d (c @ x) \<mapsto> ind t)"
  by (simp add: update_xml_def Let_def)






subsection \<open>What a run writes\<close>

lemma wrote_only_refl: "wrote_only S w w"
  by (simp add: wrote_only_def)

lemma wrote_only_trans:
  assumes "wrote_only S w w'" and "wrote_only S w' w''"
  shows "wrote_only S w w''"
proof -
  from assms obtain ps qs where "written w' = written w @ ps" "set ps \<subseteq> S"
    "written w'' = written w' @ qs" "set qs \<subseteq> S"
    by (auto simp: wrote_only_def)
  then have "written w'' = written w @ (ps @ qs) \<and> set (ps @ qs) \<subseteq> S" by simp
  then have "\<exists>rs. written w'' = written w @ rs \<and> set rs \<subseteq> S" by blast
  moreover from assms have "\<forall>p. p \<notin> S \<longrightarrow> store w'' p = store w p"
    by (simp add: wrote_only_def)
  ultimately show ?thesis by (simp add: wrote_only_def)
qed

lemma wrote_only_mono: "S \<subseteq> T \<Longrightarrow> wrote_only S w w' \<Longrightarrow> wrote_only T w w'"
  unfolding wrote_only_def by (meson subset_iff order_trans)

lemma update_xml_wrote:
  "wrote_only {path_join d (c @ x)} w (snd (update_xml ind d c x t w))"
  by (simp add: wrote_only_def update_xml_written update_xml_store)

lemma single_loop_wrote:
  "wrote_only {path_join (DATA_DIR cf) (cid @ ext)} w
     (loop_world (single_loop cf cid ext ids (tree, w)))"
proof (induction ids arbitrary: tree w)
  case Nil
  show ?case by (simp add: loop_world_def wrote_only_refl)
next
  case (Cons a ids)
  show ?case
  proof (cases "sublist cid a")
    case False
    with Cons.IH [of w tree] show ?thesis by simp
  next
    case True
    show ?thesis
    proof (cases "add_video_tag_single (deconstruct_anthology_id cf) a tree")
      case (Inl err)
      with True show ?thesis by (simp add: loop_world_def wrote_only_refl)
    next
      case (Inr t1)
      obtain t2 w2 where u: "update_xml (indent cf) (DATA_DIR cf) cid ext t1 w = (t2, w2)"
        by (cases "update_xml (indent cf) (DATA_DIR cf) cid ext t1 w")
      from update_xml_wrote [of "DATA_DIR cf" cid ext w "indent cf" t1] u
      have "wrote_only {path_join (DATA_DIR cf) (cid @ ext)} w w2" by simp
      from wrote_only_trans [OF this Cons.IH [of w2 t2]] True Inr u show ?thesis by simp
    qed
  qed
qed

lemma multi_loop_wrote:
  "wrote_only {path_join (DATA_DIR cf) (cid @ ext)} w
     (loop_world (multi_loop cf cid ext entries (tree, w)))"
proof (induction entries arbitrary: tree w)
  case Nil
  show ?case by (simp add: loop_world_def wrote_only_refl)
next
  case (Cons en entries)
  show ?case
  proof (cases "\<exists>a n others. en = a # n # others")
    case False
    then have "multi_loop cf cid ext (en # entries) (tree, w) = Inl (IndexError, w)"
      by (auto split: list.splits)
    then show ?thesis by (simp add: loop_world_def wrote_only_refl)
  next
    case True
    then obtain a n others where en: "en = a # n # others" by blast
    show ?thesis
    proof (cases "sublist cid a")
      case False
      with Cons.IH [of w tree] en show ?thesis by simp
    next
      case True
      show ?thesis
      proof (cases "add_video_tag_multiple (deconstruct_anthology_id cf) a n tree")
        case (Inl err)
        with True en show ?thesis by (simp add: loop_world_def wrote_only_refl)
      next
        case (Inr t1)
        obtain t2 w2 where u: "update_xml (indent cf) (DATA_DIR cf) cid ext t1 w = (t2, w2)"
          by (cases "update_xml (indent cf) (DATA_DIR cf) cid ext t1 w")
        from update_xml_wrote [of "DATA_DIR cf" cid ext w "indent cf" t1] u
        have "wrote_only {path_join (DATA_DIR cf) (cid @ ext)} w w2" by simp
        from wrote_only_trans [OF this Cons.IH [of w2 t2]] True Inr u en show ?thesis by simp
      qed
    qed
  qed
qed

lemma process_file_wrote:
  "wrote_only {path_join (DATA_DIR cf) f} w (final_world (process_file cf s m f w))"
proof -
  obtain cid ext where sp: "splitext f = (cid, ext)" by (cases "splitext f")
  with splitext_concat [of f] have f: "cid @ ext = f" by simp
  show ?thesis
  proof (cases "store w (path_join (DATA_DIR cf) f)")
    case None
    with sp show ?thesis by (simp add: process_file_def final_world_def wrote_only_refl)
  next
    case (Some tree)
    note s1 = single_loop_wrote [of cf cid ext w s tree]
    show ?thesis
    proof (cases "single_loop cf cid ext s (tree, w)")
      case (Inl ew)
      with s1 sp Some show ?thesis
        by (cases ew) (simp add: process_file_def final_world_def loop_world_def f)
    next
      case (Inr tw)
      obtain t1 w1 where tw: "tw = (t1, w1)" by (cases tw)
      from s1 Inr tw have a: "wrote_only {path_join (DATA_DIR cf) f} w w1"
        by (simp add: loop_world_def f)
      note s2 = multi_loop_wrote [of cf cid ext w1 m t1]
      have "final_world (process_file cf s m f w) = loop_world (multi_loop cf cid ext m (t1, w1))"
        using sp Some Inr tw
        by (auto simp: process_file_def final_world_def loop_world_def split: sum.splits)
      with wrote_only_trans [OF a] s2 show ?thesis by (simp add: f)
    qed
  qed
qed

lemma file_loop_wrote:
  "wrote_only (path_join (DATA_DIR cf) ` set fs) w (final_world (file_loop cf s m fs w))"
proof (induction fs arbitrary: w)
  case Nil
  show ?case by (simp add: final_world_def wrote_only_refl)
next
  case (Cons f fs)
  let ?S = "path_join (DATA_DIR cf) ` set (f # fs)"
  have a: "wrote_only ?S w (final_world (process_file cf s m f w))"
    by (rule wrote_only_mono [OF _ process_file_wrote]) simp
  show ?case
  proof (cases "process_file cf s m f w")
    case (Inl ew)
    with a show ?thesis by (simp add: final_world_def)
  next
    case (Inr w1)
    with a have a1: "wrote_only ?S w w1" by (simp add: final_world_def)
    have "wrote_only ?S w1 (final_world (file_loop cf s m fs w1))"
      by (rule wrote_only_mono [OF _ Cons.IH]) auto
    from wrote_only_trans [OF a1 this] Inr show ?thesis by simp
  qed
qed

lemma path_join_inject: "path_join d a = path_join d b \<Longrightarrow> a = b"
  by (simp add: path_join_def split: if_splits)


lemma main_wrote:
  assumes "get_collection_ids (deconstruct_anthology_id cf) e video_dir = Inr cids"
    and "listdir e (DATA_DIR cf) = Some entries"
  shows "wrote_only (path_join (DATA_DIR cf) ` {f \<in> set entries. fst (splitext f) \<in> set cids}) w
           (final_world (main cf e video_dir w))"
proof -
  have "main cf e video_dir w =
          file_loop cf (fst (get_anth_ids e video_dir)) (snd (get_anth_ids e video_dir))
            (xml_files cids entries) w"
    using assms by (simp add: main_def split: prod.splits)
  moreover have "set (xml_files cids entries) = {f \<in> set entries. fst (splitext f) \<in> set cids}"
    by (simp add: xml_files_def)
  ultimately show ?thesis
    using file_loop_wrote [of cf "xml_files cids entries" w "fst (get_anth_ids e video_dir)"
        "snd (get_anth_ids e video_dir)"]
    by simp
qed

text \<open>
  Claim C10. A run that fails while scanning or while listing the metadata directory
  leaves the world as it was. Otherwise, whether the run completes or stops at an error,
  every path it opened for writing is the metadata directory joined with a selected
  entry, that is, with a collection code of a scanned file followed by the entry's
  extension; every document at another path is unchanged, in particular every path that
  is not in the metadata directory and every entry of it whose base name is not one of
  the collection codes.
\<close>

theorem run_writes_only_selected:
  "(\<forall>err. get_collection_ids (deconstruct_anthology_id cf) e video_dir = Inl err \<longrightarrow>
      main cf e video_dir w = Inl (err, w)) \<and>
   (\<forall>cids. get_collection_ids (deconstruct_anthology_id cf) e video_dir = Inr cids \<and>
      listdir e (DATA_DIR cf) = None \<longrightarrow> main cf e video_dir w = Inl (ListdirError, w)) \<and>
   (\<forall>cids entries.
      get_collection_ids (deconstruct_anthology_id cf) e video_dir = Inr cids \<and>
      listdir e (DATA_DIR cf) = Some entries \<longrightarrow>
      (\<exists>ps. written (final_world (main cf e video_dir w)) = written w @ ps \<and>
         set ps \<subseteq> path_join (DATA_DIR cf) ` {f \<in> set entries. fst (splitext f) \<in> set cids}) \<and>
      (\<forall>f \<in> set entries. fst (splitext f) \<in> set cids \<longrightarrow>
         (\<exists>c ext. c \<in> set cids \<and> f = c @ ext \<and> splitext f = (c, ext))) \<and>
      (\<forall>p. p \<notin> path_join (DATA_DIR cf) ` {f \<in> set entries. fst (splitext f) \<in> set cids} \<longrightarrow>
         store (final_world (main cf e video_dir w)) p = store w p) \<and>
      (\<forall>p. (\<forall>name. p \<noteq> path_join (DATA_DIR cf) name) \<longrightarrow>
         store (final_world (main cf e video_dir w)) p = store w p) \<and>
      (\<forall>f. fst (splitext f) \<notin> set cids \<longrightarrow>
         store (final_world (main cf e video_dir w)) (path_join (DATA_DIR cf) f) =
         store w (path_join (DATA_DIR cf) f)))"
proof (intro conjI allI impI)
  fix err
  assume "get_collection_ids (deconstruct_anthology_id cf) e video_dir = Inl err"
  then show "main cf e video_dir w = Inl (err, w)" by (simp add: main_def)
next
  fix cids
  assume "get_collection_ids (deconstruct_anthology_id cf) e video_dir = Inr cids \<and>
      listdir e (DATA_DIR cf) = None"
  then show "main cf e video_dir w = Inl (ListdirError, w)" by (simp add: main_def)
next
  fix cids entries
  assume a: "get_collection_ids (deconstruct_anthology_id cf) e video_dir = Inr cids \<and>
      listdir e (DATA_DIR cf) = Some entries"
  let ?S = "path_join (DATA_DIR cf) ` {f \<in> set entries. fst (splitext f) \<in> set cids}"
  from a have wo: "wrote_only ?S w (final_world (main cf e video_dir w))"
    by (intro main_wrote) simp_all
  from wo show "\<exists>ps. written (final_world (main cf e video_dir w)) = written w @ ps \<and> set ps \<subseteq> ?S"
    by (simp add: wrote_only_def)
  {
    fix p assume "p \<notin> ?S"
    with wo show "store (final_world (main cf e video_dir w)) p = store w p"
      by (simp add: wrote_only_def)
  }
  {
    fix p assume "\<forall>name. p \<noteq> path_join (DATA_DIR cf) name"
    then have "p \<notin> ?S" by blast
    with wo show "store (final_world (main cf e video_dir w)) p = store w p"
      by (simp add: wrote_only_def)
  }
  {
    fix f assume n: "fst (splitext f) \<notin> set cids"
    have "path_join (DATA_DIR cf) f \<notin> ?S"
    proof
      assume "path_join (DATA_DIR cf) f \<in> ?S"
      then obtain g where "fst (splitext g) \<in> set cids" "path_join (DATA_DIR cf) f = path_join (DATA_DIR cf) g"
        by blast
      with n show False by (auto dest: path_join_inject)
    qed
    with wo show "store (final_world (main cf e video_dir w)) (path_join (DATA_DIR cf) f) =
         store w (path_join (DATA_DIR cf) f)"
      by (simp add: wrote_only_def)
  }
  show "\<forall>f \<in> set entries. fst (splitext f) \<in> set cids \<longrightarrow>
         (\<exists>c ext. c \<in> set cids \<and> f = c @ ext \<and> splitext f = (c, ext))"
  proof (intro ballI impI)
    fix f assume "f \<in> set entries" "fst (splitext f) \<in> set cids"
    then have "fst (splitext f) \<in> set cids \<and> f = fst (splitext f) @ snd (splitext f) \<and>
       splitext f = (fst (splitext f), snd (splitext f))"
      by (simp add: splitext_concat)
    then show "\<exists>c ext. c \<in> set cids \<and> f = c @ ext \<and> splitext f = (c, ext)" by blast
  qed
qed

lemma main_example_result:
  "\<exists>w'. main example_config example_env ''videos/'' example_world = Inr w' \<and>
     written w' = [''/repo/bin/../data/xml/N13.xml'', ''/repo/bin/../data/xml/N13.xml'',
                   ''/repo/bin/../data/xml/N13.xml'', ''/repo/bin/../data/xml/Q13.xml'']"
  unfolding main_example_unfold
  by (simp add: process_file_def splitext_examples example_config_def
        path_join_def example_world_def sublist_code add_video_tag_single_def
        add_video_tag_multiple_def example_dec_def find_paper_def n13_doc_def q13_doc_def
        paper_node_def is_node_def make_simple_element_def update_xml_def Let_def
        update_child_def append_child_def)

text \<open>Claim C10 on the small installation: four writes, \<^verbatim>\<open>R13.xml\<close> untouched.\<close>

theorem run_writes_only_selected_witness:
  "get_collection_ids (deconstruct_anthology_id example_config) example_env ''videos/'' =
     Inr [''N13'', ''Q13''] \<and>
   listdir example_env (DATA_DIR example_config) = Some [''N13.xml'', ''Q13.xml'', ''R13.xml''] \<and>
   written (final_world (main example_config example_env ''videos/'' example_world)) =
     [''/repo/bin/../data/xml/N13.xml'', ''/repo/bin/../data/xml/N13.xml'',
      ''/repo/bin/../data/xml/N13.xml'', ''/repo/bin/../data/xml/Q13.xml''] \<and>
   store (final_world (main example_config example_env ''videos/'' example_world))
     ''/repo/bin/../data/xml/R13.xml'' = Some q13_doc \<and>
   store (final_world (main example_config example_env ''videos/'' example_world))
     ''videos/N13-1001.mp4'' = None"
proof -
  have h1: "get_collection_ids (deconstruct_anthology_id example_config) example_env ''videos/'' =
     Inr [''N13'', ''Q13'']"
    by (simp add: example_config_def collection_ids_example)
  have h2: "listdir example_env (DATA_DIR example_config) = Some [''N13.xml'', ''Q13.xml'', ''R13.xml'']"
    by (rule listdir_example)
  let ?w = "final_world (main example_config example_env ''videos/'' example_world)"
  from run_writes_only_selected [of example_config example_env "''videos/''" example_world] h1 h2
  have fr: "\<forall>f. fst (splitext f) \<notin> set [''N13'', ''Q13''] \<longrightarrow>
         store ?w (path_join (DATA_DIR example_config) f) =
         store example_world (path_join (DATA_DIR example_config) f)"
    and out: "\<forall>p. (\<forall>name. p \<noteq> path_join (DATA_DIR example_config) name) \<longrightarrow>
         store ?w p = store example_world p"
    by blast+
  have "fst (splitext ''R13.xml'') \<notin> set [''N13'', ''Q13'']" by (simp add: splitext_def rfind_def)
  with fr have "store ?w (path_join (DATA_DIR example_config) ''R13.xml'') =
         store example_world (path_join (DATA_DIR example_config) ''R13.xml'')" by blast
  then have c1: "store ?w ''/repo/bin/../data/xml/R13.xml'' = Some q13_doc"
    by (simp add: path_join_def example_config_def example_world_def)
  have "\<forall>name. ''videos/N13-1001.mp4'' \<noteq> path_join (DATA_DIR example_config) name"
    by (simp add: path_join_def example_config_def)
  with out have "store ?w ''videos/N13-1001.mp4'' = store example_world ''videos/N13-1001.mp4''"
    by blast
  then have c2: "store ?w ''videos/N13-1001.mp4'' = None" by (simp add: example_world_def)
  from main_example_result have c3: "written ?w =
     [''/repo/bin/../data/xml/N13.xml'', ''/repo/bin/../data/xml/N13.xml'',
      ''/repo/bin/../data/xml/N13.xml'', ''/repo/bin/../data/xml/Q13.xml'']"
    by (auto simp: final_world_def)
  from h1 h2 c1 c2 c3 show ?thesis by (intro conjI)
qed

end
